theory Spec2Isabelle
  imports Complex_Main "HOL-Library.Word"
begin

section \<open>Data model\<close>

text \<open>
  Exceptions are values. \<open>ValueError\<close> and \<open>TypeError\<close> are raised by the Python
  standard library and by PIL on the paths modelled below; \<open>FileNotFoundError\<close> by
  \<open>Image.open\<close>; \<open>IndexError\<close> by indexing an empty shape; \<open>CvError\<close> by OpenCV on
  an empty array; \<open>RuntimeError\<close> by app.py when the API key is missing.
  \<open>ExternalError\<close> stands for whatever an external model or service
  raises (the YOLO detector, the timm model, the image decoder, Pinecone).
\<close>

datatype error =
    ValueError
  | TypeError
  | FileNotFoundError
  | IndexError
  | CvError
  | RuntimeError
  | ExternalError string

text \<open>
  A PIL image with three 8-bit bands (the modes \<open>RGB\<close>, \<open>YCbCr\<close>, \<open>LAB\<close>, \<open>HSV\<close>):
  its mode, its size and its raster, a list of \<open>height\<close> rows of \<open>width\<close> pixels.
\<close>

type_synonym pixel = "8 word \<times> 8 word \<times> 8 word"

record image =
  mode :: string
  width :: nat
  height :: nat
  pixels :: "pixel list list"

text \<open>
  A detection of the YOLO model: \<open>box.xyxy[0].tolist()\<close> is four floats, and the
  confidence comes with it. A finite float is the real number it stands for; NaN and
  the infinities are not values of the model. What floating-point arithmetic returns
  is not what exact arithmetic returns, so the operations the claims depend on are
  parameters (see \<open>libs\<close> below).
\<close>

type_synonym xyxy = "real \<times> real \<times> real \<times> real"

record box =
  xyxy :: xyxy
  conf :: real

text \<open>
  A numpy array or torch tensor of floats: its shape and its elements in row-major
  order. \<open>tolist()\<close> of such an array is the nested list of the same shape and
  elements, so the list a function returns is modelled by the array itself.
\<close>

record ndarray =
  shape :: "nat list"
  flat :: "real list"

text \<open>
  What \<open>np.linalg.norm\<close> returns on a float32 array of finite elements: a finite
  float, or \<open>inf\<close> when the sum of squares overflows.
\<close>

datatype float_result = Finite real | PosInf

text \<open>
  The vector database. A collection has the dimension and the metric it was created
  with and holds items by id: a vector and its metadata, a dictionary from strings to
  strings. A match is what a query returns for one item.
\<close>

type_synonym metadata = "(string \<times> string) list"

record collection =
  dimension :: nat
  metric :: string
  items :: "string \<rightharpoonup> ndarray \<times> metadata"

record match =
  match_id :: string
  score :: real
  match_metadata :: "metadata option"

text \<open>
  The external libraries the repository calls, as parameters:
  \<^item> \<open>yolo_predict img conf\<close>: \<open>pil_img.save(buf, format="JPEG")\<close> followed by
    \<open>self.yolo_model.predict(buf, conf=conf, max_det=10, imgsz=640)\<close> and
    \<open>results[0].boxes\<close>, or the exception any of them raises;
  \<^item> \<open>pil_convert_rgb\<close>: \<open>Image.convert('RGB')\<close>;
  \<^item> \<open>pil_resize_bicubic img n\<close>: \<open>img.resize((n, n), Image.BICUBIC)\<close>;
  \<^item> \<open>cv_bgr2lab\<close>, \<open>cv_lab2bgr\<close>: what \<open>cv2.cvtColor\<close> does to one pixel under
    \<open>COLOR_BGR2LAB\<close> and \<open>COLOR_LAB2BGR\<close>;
  \<^item> \<open>cv_equalize_lut chan\<close>: the lookup table \<open>cv2.equalizeHist\<close> derives from
    the histogram of a channel and then applies to each of its elements;
  \<^item> \<open>input_size\<close>: \<open>data_config['input_size'][1]\<close> of the timm model;
  \<^item> \<open>model_forward\<close>: the forward pass \<open>self.model(tensor)\<close>;
  \<^item> \<open>randn\<close>: the elements \<open>torch.randn\<close> draws for a given shape;
  \<^item> \<open>pil_open\<close>: decoding the bytes of a file, as \<open>Image.open\<close> does;
  \<^item> \<open>uuid4_hex k\<close>: the value of the \<open>k\<close>-th call of \<open>uuid.uuid4().hex\<close>;
  \<^item> \<open>pinecone_query coll v k\<close>: \<open>index.query(vector=v, top_k=k,
    include_metadata=True).matches\<close> on a collection;
  \<^item> \<open>float_sub\<close>, \<open>float_mul\<close>: subtraction and multiplication of Python floats
    (IEEE binary64, rounded), on the coordinates of a box;
  \<^item> \<open>np_linalg_norm\<close>: \<open>np.linalg.norm\<close> on the elements of a float32 array;
  \<^item> \<open>np_divide x n\<close>: the float32 quotient of an element by a finite norm.
\<close>

record libs =
  yolo_predict :: "image \<Rightarrow> real \<Rightarrow> error + box list"
  pil_convert_rgb :: "image \<Rightarrow> image"
  pil_resize_bicubic :: "image \<Rightarrow> nat \<Rightarrow> image"
  cv_bgr2lab :: "pixel \<Rightarrow> pixel"
  cv_lab2bgr :: "pixel \<Rightarrow> pixel"
  cv_equalize_lut :: "8 word list list \<Rightarrow> 8 word \<Rightarrow> 8 word"
  input_size :: nat
  model_forward :: "ndarray \<Rightarrow> error + ndarray"
  randn :: "nat list \<Rightarrow> real list"
  pil_open :: "8 word list \<Rightarrow> error + image"
  uuid4_hex :: "nat \<Rightarrow> string"
  pinecone_query :: "collection \<Rightarrow> ndarray \<Rightarrow> int \<Rightarrow> error + match list"
  float_sub :: "real \<Rightarrow> real \<Rightarrow> real"
  float_mul :: "real \<Rightarrow> real \<Rightarrow> real"
  np_linalg_norm :: "real list \<Rightarrow> float_result"
  np_divide :: "real \<Rightarrow> real \<Rightarrow> real"

text \<open>What \<open>uuid.uuid4().hex\<close> returns: 32 lower-case hexadecimal digits.\<close>

definition is_uuid_hex :: "string \<Rightarrow> bool" where
  "is_uuid_hex s = (length s = 32 \<and> list_all (\<lambda>c. c \<in> set ''0123456789abcdef'') s)"

text \<open>
  The Euclidean norm of a vector, over the reals: the norm the claims about embeddings
  speak of, as distinct from the value \<open>np.linalg.norm\<close> computes.
\<close>

definition euclidean_norm :: "real list \<Rightarrow> real" where
  "euclidean_norm xs = sqrt (sum_list (map (\<lambda>x. x * x) xs))"

section \<open>pipeline.py\<close>

subsection \<open>PIL: reading a pixel, cropping\<close>

text \<open>
  \<open>Image.crop((left, upper, right, lower))\<close>: PIL raises \<open>ValueError\<close> when
  \<open>right < left\<close> or \<open>lower < upper\<close>; otherwise the result has size
  \<open>(right - left, lower - upper)\<close> and the part of the box outside the image is black.
\<close>

definition getpixel :: "image \<Rightarrow> int \<Rightarrow> int \<Rightarrow> pixel" where
  "getpixel img x y =
     (if 0 \<le> x \<and> x < int (width img) \<and> 0 \<le> y \<and> y < int (height img)
         \<and> nat y < length (pixels img) \<and> nat x < length (pixels img ! nat y)
      then pixels img ! nat y ! nat x
      else (0, 0, 0))"

definition crop :: "image \<Rightarrow> int \<times> int \<times> int \<times> int \<Rightarrow> error + image" where
  "crop img bx =
     (case bx of (left, upper, right, lower) \<Rightarrow>
        if right < left \<or> lower < upper then Inl ValueError
        else Inr \<lparr> mode = mode img,
                   width = nat (right - left),
                   height = nat (lower - upper),
                   pixels = map (\<lambda>y. map (\<lambda>x. getpixel img x y) [left..right - 1])
                                [upper..lower - 1] \<rparr>)"

subsection \<open>\<open>_center_crop\<close>\<close>

definition center_crop :: "image \<Rightarrow> error + image" where
  "center_crop pil_img =
     (let w = int (width pil_img);
          h = int (height pil_img);
          side = min w h;
          left = (w - side) div 2;
          top = (h - side) div 2
      in crop pil_img (left, top, left + side, top + side))"

subsection \<open>\<open>detect_and_crop\<close>\<close>

text \<open>Python's \<open>int(x)\<close> on a float truncates towards zero.\<close>

definition py_int :: "real \<Rightarrow> int" where
  "py_int x = (if 0 \<le> x then \<lfloor>x\<rfloor> else \<lceil>x\<rceil>)"

text \<open>Line 66: \<open>area = (x2 - x1) * (y2 - y1)\<close>, in floating point.\<close>

definition area :: "libs \<Rightarrow> box \<Rightarrow> real" where
  "area L b =
     (case xyxy b of (x1, y1, x2, y2) \<Rightarrow> float_mul L (float_sub L x2 x1) (float_sub L y2 y1))"

text \<open>
  A well-formed box, as the data model has it: \<open>x1 < x2\<close> and \<open>y1 < y2\<close>, and the
  area computed for it is positive. The coordinates are float32 values read as Python
  floats, so that the two differences are exact in binary64 and their product cannot
  underflow; the floating-point operations being parameters here, this is stated.
\<close>

definition well_formed :: "libs \<Rightarrow> box \<Rightarrow> bool" where
  "well_formed L b =
     (case xyxy b of (x1, y1, x2, y2) \<Rightarrow> x1 < x2 \<and> y1 < y2 \<and> 0 < area L b)"

text \<open>
  The loop over the boxes, with its two variables \<open>best_box\<close> and \<open>best_area\<close> as the
  state.
\<close>

fun best_box_loop :: "libs \<Rightarrow> box list \<Rightarrow> xyxy option \<times> real \<Rightarrow> xyxy option \<times> real" where
  "best_box_loop L [] st = st"
| "best_box_loop L (b # bs) (best_box, best_area) =
     (if area L b > best_area
      then best_box_loop L bs (Some (xyxy b), area L b)
      else best_box_loop L bs (best_box, best_area))"

definition find_best_box :: "libs \<Rightarrow> box list \<Rightarrow> xyxy option" where
  "find_best_box L boxes = fst (best_box_loop L boxes (None, 0))"

text \<open>
  The crop rectangle of the winning box: the coordinates truncated to integers, then
  padded by 5\% of the box's width and height and clamped.
\<close>

definition padded_box :: "image \<Rightarrow> xyxy \<Rightarrow> int \<times> int \<times> int \<times> int" where
  "padded_box pil_img best_box =
     (case best_box of (fx1, fy1, fx2, fy2) \<Rightarrow>
        let x1 = py_int fx1; y1 = py_int fy1; x2 = py_int fx2; y2 = py_int fy2;
            w = int (width pil_img);
            h = int (height pil_img);
            pad_x = py_int (real_of_int (x2 - x1) * 0.05);
            pad_y = py_int (real_of_int (y2 - y1) * 0.05)
        in (max 0 (x1 - pad_x), max 0 (y1 - pad_y), min w (x2 + pad_x), min h (y2 + pad_y)))"

definition detect_and_crop :: "libs \<Rightarrow> image \<Rightarrow> real \<Rightarrow> error + image" where
  "detect_and_crop L pil_img conf_threshold =
     (case yolo_predict L pil_img conf_threshold of
        Inl e \<Rightarrow> Inl e
      | Inr boxes \<Rightarrow>
          if length boxes = 0 then center_crop pil_img
          else (case find_best_box L boxes of
                  Some best_box \<Rightarrow> crop pil_img (padded_box pil_img best_box)
                | None \<Rightarrow> center_crop pil_img))"

subsection \<open>\<open>normalize_color\<close>\<close>

text \<open>
  The arrays of OpenCV are lists of rows. \<open>cv2.cvtColor\<close> raises on an empty array and
  otherwise converts pixel by pixel; \<open>COLOR_RGB2BGR\<close> and \<open>COLOR_BGR2RGB\<close> exchange the
  first and the third channel.
\<close>

definition array_empty :: "'a list list \<Rightarrow> bool" where
  "array_empty arr = (arr = [] \<or> hd arr = [])"

definition swap_rb :: "pixel \<Rightarrow> pixel" where
  "swap_rb p = (case p of (c0, c1, c2) \<Rightarrow> (c2, c1, c0))"

definition cv_split :: "pixel list list \<Rightarrow> 8 word list list \<times> 8 word list list \<times> 8 word list list" where
  "cv_split arr =
     (map (map fst) arr, map (map (\<lambda>p. fst (snd p))) arr, map (map (\<lambda>p. snd (snd p))) arr)"

definition cv_merge :: "8 word list list \<times> 8 word list list \<times> 8 word list list \<Rightarrow> pixel list list" where
  "cv_merge chans =
     (case chans of (c0, c1, c2) \<Rightarrow>
        map (\<lambda>(r0, r1, r2). zip r0 (zip r1 r2)) (zip c0 (zip c1 c2)))"

definition cv_equalizeHist :: "libs \<Rightarrow> 8 word list list \<Rightarrow> 8 word list list" where
  "cv_equalizeHist L chan = map (map (cv_equalize_lut L chan)) chan"

definition fromarray :: "pixel list list \<Rightarrow> image" where
  "fromarray arr =
     \<lparr> mode = ''RGB'',
       width = (case arr of [] \<Rightarrow> 0 | r # _ \<Rightarrow> length r),
       height = length arr,
       pixels = arr \<rparr>"

text \<open>Lines 114 to 117: the image as an array in the LAB colour space.\<close>

definition to_lab :: "libs \<Rightarrow> image \<Rightarrow> pixel list list" where
  "to_lab L pil_img =
     (let img_cv = map (map swap_rb) (pixels pil_img);
          lab = map (map (cv_bgr2lab L)) img_cv
      in lab)"

text \<open>Lines 120 to 126: split, equalise the first channel, merge.\<close>

definition equalize_l :: "libs \<Rightarrow> pixel list list \<Rightarrow> pixel list list" where
  "equalize_l L lab =
     (case cv_split lab of (l, a, b) \<Rightarrow> cv_merge (cv_equalizeHist L l, a, b))"

text \<open>Lines 129 to 132: back to an RGB image.\<close>

definition from_lab :: "libs \<Rightarrow> pixel list list \<Rightarrow> image" where
  "from_lab L lab =
     (let img_eq = map (map (cv_lab2bgr L)) lab;
          img_rgb = map (map swap_rb) img_eq
      in fromarray img_rgb)"

definition normalize_color :: "libs \<Rightarrow> image \<Rightarrow> error + image" where
  "normalize_color L pil_img =
     (if array_empty (pixels pil_img) then Inl CvError
      else Inr (from_lab L (equalize_l L (to_lab L pil_img))))"

subsection \<open>\<open>process_image\<close>\<close>

definition process_image :: "libs \<Rightarrow> image \<Rightarrow> bool \<Rightarrow> bool \<Rightarrow> error + image" where
  "process_image L pil_img apply_detection apply_color_norm =
     (let img0 = (if mode pil_img \<noteq> ''RGB'' then pil_convert_rgb L pil_img else pil_img)
      in (case (if apply_detection then detect_and_crop L img0 0.25 else Inr img0) of
            Inl e \<Rightarrow> Inl e
          | Inr img1 \<Rightarrow> (if apply_color_norm then normalize_color L img1 else Inr img1)))"

section \<open>embedding\_service.py\<close>

text \<open>The ImageNet statistics \<open>self.mean\<close> and \<open>self.std\<close>, by channel.\<close>

definition imagenet_mean :: "nat \<Rightarrow> real" where
  "imagenet_mean c = (if c = 0 then 0.485 else if c = 1 then 0.456 else 0.406)"

definition imagenet_std :: "nat \<Rightarrow> real" where
  "imagenet_std c = (if c = 0 then 0.229 else if c = 1 then 0.224 else 0.225)"

definition channel :: "nat \<Rightarrow> pixel \<Rightarrow> 8 word" where
  "channel c p = (if c = 0 then fst p else if c = 1 then fst (snd p) else snd (snd p))"

definition preprocess_image :: "libs \<Rightarrow> image \<Rightarrow> ndarray" where
  "preprocess_image L pil_img =
     (let img = (if (width pil_img, height pil_img) \<noteq> (input_size L, input_size L)
                 then pil_resize_bicubic L pil_img (input_size L) else pil_img)
      in \<lparr> shape = [1, 3, height img, width img],
           flat = concat (map (\<lambda>c. concat (map (map (\<lambda>p.
                     (real (unat (channel c p)) / 255 - imagenet_mean c) / imagenet_std c))
                     (pixels img))) [0, 1, 2]) \<rparr>)"

text \<open>
  \<open>t.mean(dim=(-2, -1))\<close>: the mean over the last two axes. Both callers test
  \<open>ndim > 2\<close> first; on a shorter shape the array is returned as it is.
\<close>

definition mean_last2 :: "ndarray \<Rightarrow> ndarray" where
  "mean_last2 t =
     (case rev (shape t) of
        d1 # d2 # outer \<Rightarrow>
          \<lparr> shape = rev outer,
            flat = map (\<lambda>i. sum_list (take (d2 * d1) (drop (i * (d2 * d1)) (flat t)))
                              / real (d2 * d1))
                       [0..<prod_list outer] \<rparr>
      | _ \<Rightarrow> t)"

definition squeeze :: "ndarray \<Rightarrow> ndarray" where
  "squeeze t = t\<lparr> shape := filter (\<lambda>n. n \<noteq> 1) (shape t) \<rparr>"

definition extract_features :: "libs \<Rightarrow> ndarray \<Rightarrow> error + ndarray" where
  "extract_features L tensor =
     (case model_forward L tensor of
        Inl e \<Rightarrow> Inl e
      | Inr features \<Rightarrow>
          Inr (squeeze (if length (shape features) > 2 then mean_last2 features
                        else features)))"

text \<open>
  \<open>normalize_vector\<close>: the norm is computed in float32. When it is finite and
  positive each element is divided by it, in float32; when it is \<open>inf\<close> the test
  \<open>norm > 0\<close> holds too and every quotient is zero; otherwise the vector is returned
  as it is.
\<close>

definition normalize_vector :: "libs \<Rightarrow> ndarray \<Rightarrow> ndarray" where
  "normalize_vector L vec =
     (case np_linalg_norm L (flat vec) of
        PosInf \<Rightarrow> vec\<lparr> flat := map (\<lambda>x. 0) (flat vec) \<rparr>
      | Finite nrm \<Rightarrow>
          (if nrm > 0 then vec\<lparr> flat := map (\<lambda>x. np_divide L x nrm) (flat vec) \<rparr>
           else vec))"

definition generate_embedding :: "libs \<Rightarrow> image \<Rightarrow> error + ndarray" where
  "generate_embedding L pil_img =
     (let tensor = preprocess_image L pil_img
      in (case extract_features L tensor of
            Inl e \<Rightarrow> Inl e
          | Inr features \<Rightarrow> Inr (normalize_vector L features)))"

definition get_embedding_dim :: "libs \<Rightarrow> error + nat" where
  "get_embedding_dim L =
     (let sh = [1, 3, input_size L, input_size L];
          dummy_input = \<lparr> shape = sh, flat = randn L sh \<rparr>
      in (case model_forward L dummy_input of
            Inl e \<Rightarrow> Inl e
          | Inr output \<Rightarrow>
              (let output' = (if length (shape output) > 2 then mean_last2 output else output)
               in if shape output' = [] then Inl IndexError else Inr (last (shape output')))))"

text \<open>\<open>ImagePipeline.generate_embedding\<close> of pipeline.py: preprocess, then embed.\<close>

definition pipeline_generate_embedding :: "libs \<Rightarrow> image \<Rightarrow> bool \<Rightarrow> bool \<Rightarrow> error + ndarray" where
  "pipeline_generate_embedding L pil_img apply_detection apply_color_norm =
     (case process_image L pil_img apply_detection apply_color_norm of
        Inl e \<Rightarrow> Inl e
      | Inr processed \<Rightarrow> generate_embedding L processed)"

section \<open>The state outside the process\<close>

text \<open>
  The files on disk by path, the number of UUIDs drawn so far, the collections of the
  Pinecone account by name, and the calls made to the model's dummy pass and to
  Pinecone, in the order they happen.
\<close>

datatype event =
    DummyForward
  | ListIndexes
  | CreateIndex string nat string
  | Upsert string string
  | Query string

record world =
  files :: "string \<rightharpoonup> 8 word list"
  uuid_calls :: nat
  indexes :: "string \<rightharpoonup> collection"
  trace :: "event list"

text \<open>
  The environment: \<open>PINECONE_API_KEY\<close>, \<open>PINECONE_INDEX_NAME\<close> (default
  \<open>museum-images\<close>) and \<open>TOP_K\<close>.
\<close>

record config =
  api_key :: "string option"
  index_name :: string
  top_k_default :: int

subsection \<open>Pinecone\<close>

text \<open>
  Modelled from the spec: the Pinecone client is not part of the repository. Sections
  4.5 and 6: \<open>create_collection(name, dimension, metric, region_spec)\<close> creates an
  empty collection of that dimension and metric.
\<close>

definition create_index :: "string \<Rightarrow> nat \<Rightarrow> string \<Rightarrow> world \<Rightarrow> world" where
  "create_index name d metr w =
     w\<lparr> indexes := (indexes w)(name \<mapsto> \<lparr> dimension = d, metric = metr, items = Map.empty \<rparr>),
        trace := trace w @ [CreateIndex name d metr] \<rparr>"

text \<open>
  Modelled from the spec: section 4.5, \<open>upsert\<close> inserts the item or replaces the one
  with the same id. The service's own validation of a vector's dimension is left out.
\<close>

definition upsert :: "string \<Rightarrow> string \<Rightarrow> ndarray \<Rightarrow> metadata \<Rightarrow> world \<Rightarrow> error + world" where
  "upsert name item_id vals md w =
     (case indexes w name of
        None \<Rightarrow> Inl (ExternalError ''index not found'')
      | Some coll \<Rightarrow>
          Inr (w\<lparr> indexes := (indexes w)(name \<mapsto> coll\<lparr> items := (items coll)(item_id \<mapsto> (vals, md)) \<rparr>),
                  trace := trace w @ [Upsert name item_id] \<rparr>))"


section \<open>app.py\<close>

subsection \<open>Paths and strings\<close>

text \<open>
  \<open>os.path.basename\<close> and \<open>os.path.join\<close> of posixpath, \<open>str.replace\<close> of the
  backslash (the character \<open>0x5C\<close>) by the slash, \<open>str.lstrip("/")\<close>.
\<close>

definition basename :: "string \<Rightarrow> string" where
  "basename p = rev (takeWhile (\<lambda>c. c \<noteq> CHR ''/'') (rev p))"

definition path_join :: "string \<Rightarrow> string \<Rightarrow> string" where
  "path_join a b =
     (if b \<noteq> [] \<and> hd b = CHR ''/'' then b
      else if a = [] \<or> last a = CHR ''/'' then a @ b
      else a @ ''/'' @ b)"

definition replace_backslash :: "string \<Rightarrow> string" where
  "replace_backslash s = map (\<lambda>c. if c = CHR 0x5C then CHR ''/'' else c) s"

definition lstrip_slash :: "string \<Rightarrow> string" where
  "lstrip_slash s = dropWhile (\<lambda>c. c = CHR ''/'') s"

definition IMAGES_DIR :: string where
  "IMAGES_DIR = ''images''"

definition MUSEUM_DIR :: string where
  "MUSEUM_DIR = path_join IMAGES_DIR ''museum''"


subsection \<open>Start-up (lines 36 to 57)\<close>


subsection \<open>\<open>save_upload_file\<close>\<close>

text \<open>
  An uploaded file: its name (which the client may omit), its declared content type and
  its bytes.
\<close>

record upload =
  filename :: "string option"
  content_type :: string
  file_bytes :: "8 word list"

text \<open>
  The f-string draws the UUID first and then takes the base name, which raises
  \<open>TypeError\<close> on \<open>None\<close>. Writing the file is taken to succeed.
\<close>

definition save_upload_file :: "libs \<Rightarrow> string \<Rightarrow> upload \<Rightarrow> world \<Rightarrow> (error + string) \<times> world" where
  "save_upload_file L local_dir file w =
     (let u = uuid4_hex L (uuid_calls w);
          w1 = w\<lparr> uuid_calls := Suc (uuid_calls w) \<rparr>
      in (case filename file of
            None \<Rightarrow> (Inl TypeError, w1)
          | Some name \<Rightarrow>
              (let fname = u @ ''_'' @ basename name;
                   path = path_join local_dir fname;
                   w2 = w1\<lparr> files := (files w1)(path \<mapsto> file_bytes file) \<rparr>;
                   rel = replace_backslash path
               in (Inr (''/'' @ rel), w2))))"

text \<open>\<open>Image.open(image_path).convert("RGB")\<close>.\<close>

definition image_open_rgb :: "libs \<Rightarrow> world \<Rightarrow> string \<Rightarrow> error + image" where
  "image_open_rgb L w image_path =
     (case files w image_path of
        None \<Rightarrow> Inl FileNotFoundError
      | Some bytes \<Rightarrow>
          (case pil_open L bytes of
             Inl e \<Rightarrow> Inl e
           | Inr img \<Rightarrow> Inr (pil_convert_rgb L img)))"

subsection \<open>\<open>index_image\<close>\<close>

text \<open>
  An \<open>HTTPException\<close> with its status code and the fixed part of its detail. The
  response of \<open>/index\<close>: status, id and metadata.
\<close>

datatype http_error = HTTPException nat string

record index_response =
  resp_status :: string
  resp_id :: string
  resp_metadata :: metadata

definition supported_content_type :: "string \<Rightarrow> bool" where
  "supported_content_type ct = (ct \<in> set [''image/jpeg'', ''image/png'', ''image/jpg''])"

text \<open>Lines 96 and 97: the embedding computed at index time.\<close>

definition index_image_embed :: "libs \<Rightarrow> image \<Rightarrow> error + ndarray" where
  "index_image_embed L pil =
     (case process_image L pil False True of
        Inl e \<Rightarrow> Inl e
      | Inr processed \<Rightarrow> generate_embedding L processed)"

definition index_image ::
  "libs \<Rightarrow> config \<Rightarrow> upload \<Rightarrow> string \<Rightarrow> string \<Rightarrow> string \<Rightarrow> string \<Rightarrow> world
     \<Rightarrow> (http_error + index_response) \<times> world" where
  "index_image L cfg file title artist year category w =
     (if \<not> supported_content_type (content_type file)
      then (Inl (HTTPException 400 ''Only JPG/PNG images supported.''), w)
      else
       (case save_upload_file L MUSEUM_DIR file w of
          (Inl e, w1) \<Rightarrow> (Inl (HTTPException 500 ''Failed to save file''), w1)
        | (Inr saved_url, w1) \<Rightarrow>
            (let image_path = lstrip_slash saved_url
             in (case image_open_rgb L w1 image_path of
                   Inl e \<Rightarrow> (Inl (HTTPException 400 ''Invalid image''), w1)
                 | Inr pil \<Rightarrow>
                     (case index_image_embed L pil of
                        Inl e \<Rightarrow>
                          (Inl (HTTPException 500 ''Error processing/indexing image''), w1)
                      | Inr vector \<Rightarrow>
                          (let item_id = basename image_path;
                               md = [(''title'', title), (''artist'', artist), (''year'', year),
                                     (''category'', category), (''image_url'', saved_url)]
                           in (case upsert (index_name cfg) item_id vector md w1 of
                                 Inl e \<Rightarrow>
                                   (Inl (HTTPException 500 ''Error processing/indexing image''), w1)
                               | Inr w2 \<Rightarrow>
                                   (Inr \<lparr> resp_status = ''ok'', resp_id = item_id,
                                          resp_metadata = md \<rparr>, w2))))))))"

text \<open>
  A request to \<open>/index\<close>: the file and the four form fields; there is no field for an
  id. The server answers the requests it receives one after the other, each on the
  state the one before left.
\<close>

record index_request =
  req_file :: upload
  req_title :: string
  req_artist :: string
  req_year :: string
  req_category :: string

fun index_calls ::
  "libs \<Rightarrow> config \<Rightarrow> index_request list \<Rightarrow> world
     \<Rightarrow> (http_error + index_response) list \<times> world" where
  "index_calls L cfg [] w = ([], w)"
| "index_calls L cfg (rq # rqs) w =
     (case index_image L cfg (req_file rq) (req_title rq) (req_artist rq) (req_year rq)
             (req_category rq) w of
        (r, w1) \<Rightarrow> (case index_calls L cfg rqs w1 of (rs, w2) \<Rightarrow> (r # rs, w2)))"

text \<open>The ids returned by the successful calls of a run, in order.\<close>

fun ok_ids :: "(http_error + index_response) list \<Rightarrow> string list" where
  "ok_ids [] = []"
| "ok_ids (Inl e # rs) = ok_ids rs"
| "ok_ids (Inr r # rs) = resp_id r # ok_ids rs"

subsection \<open>\<open>search_image\<close>\<close>


text \<open>Lines 130 and 131: the embedding computed at query time.\<close>

definition search_image_embed :: "libs \<Rightarrow> image \<Rightarrow> error + ndarray" where
  "search_image_embed L pil =
     (case process_image L pil False True of
        Inl e \<Rightarrow> Inl e
      | Inr processed \<Rightarrow> generate_embedding L processed)"



section \<open>images\_embed.py\<close>

text \<open>Start-up (lines 19 to 32): as in app.py, without the test of the API key.\<close>

definition embed_startup :: "libs \<Rightarrow> config \<Rightarrow> world \<Rightarrow> error + world" where
  "embed_startup L cfg w =
     (case get_embedding_dim L of
        Inl e \<Rightarrow> Inl e
      | Inr EMBED_DIM \<Rightarrow>
          (let w1 = w\<lparr> trace := trace w @ [DummyForward] \<rparr>;
               w2 = w1\<lparr> trace := trace w1 @ [ListIndexes] \<rparr>
           in if indexes w2 (index_name cfg) = None
              then Inr (create_index (index_name cfg) EMBED_DIM ''cosine'' w2)
              else Inr w2))"

text \<open>\<open>str.lower\<close> on ASCII letters and \<open>str.endswith\<close> with a tuple of suffixes.\<close>

definition lower_char :: "char \<Rightarrow> char" where
  "lower_char c =
     (if 65 \<le> (of_char c :: nat) \<and> (of_char c :: nat) \<le> 90
      then char_of ((of_char c :: nat) + 32) else c)"

definition endswith :: "string \<Rightarrow> string \<Rightarrow> bool" where
  "endswith s suffix = (length suffix \<le> length s \<and> drop (length s - length suffix) s = suffix)"

definition supported_file :: "string \<Rightarrow> bool" where
  "supported_file f =
     (let l = map lower_char f
      in endswith l ''.jpg'' \<or> endswith l ''.jpeg'' \<or> endswith l ''.png'')"

text \<open>Lines 45 and 46: the embedding computed by the bulk indexer.\<close>

definition index_folder_embed :: "libs \<Rightarrow> image \<Rightarrow> error + ndarray" where
  "index_folder_embed L pil =
     (case process_image L pil True True of
        Inl e \<Rightarrow> Inl e
      | Inr processed \<Rightarrow> generate_embedding L processed)"

text \<open>
  The body of the loop for one file. An exception is printed and the loop goes on; the
  UUID is drawn after the embedding.
\<close>

definition index_folder_file :: "libs \<Rightarrow> config \<Rightarrow> string \<Rightarrow> string \<Rightarrow> world \<Rightarrow> world" where
  "index_folder_file L cfg folder_path fname w =
     (let img_path = path_join folder_path fname
      in (case image_open_rgb L w img_path of
            Inl e \<Rightarrow> w
          | Inr pil \<Rightarrow>
              (case index_folder_embed L pil of
                 Inl e \<Rightarrow> w
               | Inr vector \<Rightarrow>
                   (let item_id = uuid4_hex L (uuid_calls w) @ ''_'' @ fname;
                        w1 = w\<lparr> uuid_calls := Suc (uuid_calls w) \<rparr>;
                        md = [(''title'', []), (''artist'', []), (''year'', []),
                              (''category'', []), (''image_url'', ''/images/museum/'' @ item_id)]
                    in (case upsert (index_name cfg) item_id vector md w1 of
                          Inl e \<Rightarrow> w1
                        | Inr w2 \<Rightarrow> w2)))))"

text \<open>\<open>index_folder\<close>, given what \<open>os.listdir(folder_path)\<close> returns.\<close>

definition index_folder :: "libs \<Rightarrow> config \<Rightarrow> string \<Rightarrow> string list \<Rightarrow> world \<Rightarrow> world" where
  "index_folder L cfg folder_path listing w =
     fold (index_folder_file L cfg folder_path) (filter supported_file listing) w"

section \<open>Sample inputs\<close>

text \<open>
  Stand-ins for the external libraries, and small inputs, on which the theorems below
  are evaluated: a detector that reports no box, a resize that fills the requested
  size with the first pixel, colour conversions that change nothing, a lookup table
  that inverts the channel, a model with two constant output features, a decoder that
  reads one pixel from the first three bytes, two UUIDs in turn, and exact arithmetic
  in place of the floating-point operations.
\<close>

definition uuid_of :: "nat \<Rightarrow> string" where
  "uuid_of k = (if even k then ''0000000000000000000000000000000a''
                else ''0000000000000000000000000000000b'')"

definition sample_libs :: libs where
  "sample_libs =
     \<lparr> yolo_predict = (\<lambda>img c. Inr []),
       pil_convert_rgb = (\<lambda>img. img\<lparr>mode := ''RGB''\<rparr>),
       pil_resize_bicubic = (\<lambda>img n.
          \<lparr> mode = mode img, width = n, height = n,
            pixels = map (\<lambda>y. map (\<lambda>x. getpixel img 0 0) [0..<n]) [0..<n] \<rparr>),
       cv_bgr2lab = (\<lambda>p. p),
       cv_lab2bgr = (\<lambda>p. p),
       cv_equalize_lut = (\<lambda>chan v. 255 - v),
       input_size = 1,
       model_forward = (\<lambda>t. Inr \<lparr> shape = [1, 2], flat = [3, 4] \<rparr>),
       randn = (\<lambda>sh. replicate (prod_list sh) 0),
       pil_open = (\<lambda>bs. case bs of
            r # g # b # _ \<Rightarrow> Inr \<lparr> mode = ''RGB'', width = 1, height = 1, pixels = [[(r, g, b)]] \<rparr>
          | _ \<Rightarrow> Inl (ExternalError ''cannot identify image file'')),
       uuid4_hex = uuid_of,
       pinecone_query = (\<lambda>coll v k. Inr []),
       float_sub = (\<lambda>a b. a - b),
       float_mul = (\<lambda>a b. a * b),
       np_linalg_norm = (\<lambda>xs. Finite (euclidean_norm xs)),
       np_divide = (\<lambda>x n. x / n) \<rparr>"

definition img_4x2 :: image where
  "img_4x2 =
     \<lparr> mode = ''RGB'', width = 4, height = 2,
       pixels = [[(10, 20, 30), (11, 21, 31), (12, 22, 32), (13, 23, 33)],
                 [(14, 24, 34), (15, 25, 35), (16, 26, 36), (17, 27, 37)]] \<rparr>"

text \<open>
  Detections: three well-formed boxes of areas 1, 4 and 4, the smallest with the highest
  confidence of the first two; a detector that raises.
\<close>

definition small_box :: box where
  "small_box = \<lparr> xyxy = (0, 0, 1, 1), conf = 0.9 \<rparr>"

definition big_box :: box where
  "big_box = \<lparr> xyxy = (2, 0, 4, 2), conf = 0.3 \<rparr>"

definition late_box :: box where
  "late_box = \<lparr> xyxy = (0, 0, 2, 2), conf = 0.95 \<rparr>"

definition three_box_libs :: libs where
  "three_box_libs = sample_libs\<lparr> yolo_predict := (\<lambda>img c. Inr [small_box, big_box, late_box]) \<rparr>"

definition failing_libs :: libs where
  "failing_libs = sample_libs\<lparr> yolo_predict := (\<lambda>img c. Inl (ExternalError ''detector failed'')) \<rparr>"

text \<open>
  Floating-point stand-ins that round: a norm too large by one sixteenth, quotients
  rounded to eighths.
\<close>

definition coarse_libs :: libs where
  "coarse_libs =
     sample_libs\<lparr> np_linalg_norm := (\<lambda>xs. Finite (euclidean_norm xs * (17 / 16))),
                  np_divide := (\<lambda>x n. real_of_int \<lfloor>8 * (x / n) + 1 / 2\<rfloor> / 8) \<rparr>"

definition img_2x1 :: image where
  "img_2x1 = \<lparr> mode = ''RGB'', width = 2, height = 1, pixels = [[(10, 20, 30), (40, 50, 60)]] \<rparr>"

text \<open>
  A model that tells two inputs apart by their first feature; a configuration, an
  account without collections and one after start-up; an upload, indexed twice.
\<close>

definition probe_libs :: libs where
  "probe_libs =
     sample_libs\<lparr> input_size := 2,
                  model_forward := (\<lambda>t. Inr \<lparr> shape = [1, 2],
                     flat = (if hd (flat t) < - 1.94 then [1, 0] else [0, 1]) \<rparr>) \<rparr>"

definition sample_cfg :: config where
  "sample_cfg = \<lparr> api_key = Some ''secret'', index_name = ''museum-images'', top_k_default = 5 \<rparr>"


definition started_world :: world where
  "started_world =
     \<lparr> files = Map.empty, uuid_calls = 0,
       indexes = [''museum-images'' \<mapsto> \<lparr> dimension = 2, metric = ''cosine'', items = Map.empty \<rparr>],
       trace = [DummyForward, ListIndexes, CreateIndex ''museum-images'' 2 ''cosine''] \<rparr>"

definition sample_upload :: upload where
  "sample_upload =
     \<lparr> filename = Some ''mona.jpg'', content_type = ''image/jpeg'', file_bytes = [10, 20, 30] \<rparr>"

definition first_call :: "(http_error + index_response) \<times> world" where
  "first_call =
     index_image sample_libs sample_cfg sample_upload ''Mona Lisa'' ''Leonardo'' ''1503''
       ''Painting'' started_world"

definition second_call :: "(http_error + index_response) \<times> world" where
  "second_call =
     index_image sample_libs sample_cfg sample_upload ''Mona Lisa'' ''Leonardo'' ''1503''
       ''Painting'' (snd first_call)"

definition sample_request :: index_request where
  "sample_request =
     \<lparr> req_file = sample_upload, req_title = ''Mona Lisa'', req_artist = ''Leonardo'',
       req_year = ''1503'', req_category = ''Painting'' \<rparr>"

section \<open>Verification\<close>

subsection \<open>The loop over the boxes\<close>

lemma best_box_loop_spec:
  "(\<forall>b \<in> set bs. area L b \<le> ba) \<and> best_box_loop L bs (bb, ba) = (bb, ba)
   \<or> (\<exists>i < length bs.
         best_box_loop L bs (bb, ba) = (Some (xyxy (bs ! i)), area L (bs ! i))
         \<and> ba < area L (bs ! i)
         \<and> (\<forall>j < length bs. area L (bs ! j) \<le> area L (bs ! i))
         \<and> (\<forall>j < i. area L (bs ! j) < area L (bs ! i)))"
proof (induction bs arbitrary: bb ba)
  case Nil
  then show ?case by simp
next
  case (Cons b bs)
  show ?case
  proof (cases "area L b > ba")
    case True
    from Cons.IH [where bb = "Some (xyxy b)" and ba = "area L b"]
    show ?thesis
    proof (elim disjE conjE exE)
      assume all: "\<forall>c \<in> set bs. area L c \<le> area L b"
        and eq: "best_box_loop L bs (Some (xyxy b), area L b) = (Some (xyxy b), area L b)"
      have "\<forall>j < length (b # bs). area L ((b # bs) ! j) \<le> area L b"
        using all by (auto simp: nth_Cons split: nat.splits)
      with True eq have "0 < length (b # bs) \<and>
         best_box_loop L (b # bs) (bb, ba) = (Some (xyxy ((b # bs) ! 0)), area L ((b # bs) ! 0))
         \<and> ba < area L ((b # bs) ! 0)
         \<and> (\<forall>j < length (b # bs). area L ((b # bs) ! j) \<le> area L ((b # bs) ! 0))
         \<and> (\<forall>j < (0::nat). area L ((b # bs) ! j) < area L ((b # bs) ! 0))"
        by simp
      then show ?thesis by blast
    next
      fix i
      assume i: "i < length bs"
        and eq: "best_box_loop L bs (Some (xyxy b), area L b) = (Some (xyxy (bs ! i)), area L (bs ! i))"
        and gt: "area L b < area L (bs ! i)"
        and mx: "\<forall>j < length bs. area L (bs ! j) \<le> area L (bs ! i)"
        and fs: "\<forall>j < i. area L (bs ! j) < area L (bs ! i)"
      have "Suc i < length (b # bs) \<and>
         best_box_loop L (b # bs) (bb, ba) = (Some (xyxy ((b # bs) ! Suc i)), area L ((b # bs) ! Suc i))
         \<and> ba < area L ((b # bs) ! Suc i)
         \<and> (\<forall>j < length (b # bs). area L ((b # bs) ! j) \<le> area L ((b # bs) ! Suc i))
         \<and> (\<forall>j < Suc i. area L ((b # bs) ! j) < area L ((b # bs) ! Suc i))"
        using i eq gt mx fs True by (auto simp: nth_Cons less_Suc_eq_0_disj split: nat.splits)
      then show ?thesis by blast
    qed
  next
    case False
    from Cons.IH [where bb = bb and ba = ba]
    show ?thesis
    proof (elim disjE conjE exE)
      assume all: "\<forall>c \<in> set bs. area L c \<le> ba"
        and eq: "best_box_loop L bs (bb, ba) = (bb, ba)"
      with False show ?thesis by auto
    next
      fix i
      assume i: "i < length bs"
        and eq: "best_box_loop L bs (bb, ba) = (Some (xyxy (bs ! i)), area L (bs ! i))"
        and gt: "ba < area L (bs ! i)"
        and mx: "\<forall>j < length bs. area L (bs ! j) \<le> area L (bs ! i)"
        and fs: "\<forall>j < i. area L (bs ! j) < area L (bs ! i)"
      have "Suc i < length (b # bs) \<and>
         best_box_loop L (b # bs) (bb, ba) = (Some (xyxy ((b # bs) ! Suc i)), area L ((b # bs) ! Suc i))
         \<and> ba < area L ((b # bs) ! Suc i)
         \<and> (\<forall>j < length (b # bs). area L ((b # bs) ! j) \<le> area L ((b # bs) ! Suc i))
         \<and> (\<forall>j < Suc i. area L ((b # bs) ! j) < area L ((b # bs) ! Suc i))"
        using i eq gt mx fs False by (auto simp: nth_Cons less_Suc_eq_0_disj split: nat.splits)
      then show ?thesis by blast
    qed
  qed
qed


lemma find_best_box_None_iff:
  "find_best_box L boxes = None \<longleftrightarrow> (\<forall>b \<in> set boxes. area L b \<le> 0)"
proof
  assume n: "find_best_box L boxes = None"
  from best_box_loop_spec [where L = L and bs = boxes and ba = 0 and bb = None] show "\<forall>b \<in> set boxes. area L b \<le> 0"
  proof
    assume "(\<forall>b\<in>set boxes. area L b \<le> 0) \<and> best_box_loop L boxes (None, 0) = (None, 0)"
    then show ?thesis by simp
  next
    assume "\<exists>i<length boxes.
       best_box_loop L boxes (None, 0) = (Some (xyxy (boxes ! i)), area L (boxes ! i)) \<and>
       0 < area L (boxes ! i) \<and>
       (\<forall>j<length boxes. area L (boxes ! j) \<le> area L (boxes ! i)) \<and>
       (\<forall>j<i. area L (boxes ! j) < area L (boxes ! i))"
    then obtain i where "best_box_loop L boxes (None, 0) = (Some (xyxy (boxes ! i)), area L (boxes ! i))"
      by blast
    with n show ?thesis by (simp add: find_best_box_def)
  qed
next
  assume a: "\<forall>b \<in> set boxes. area L b \<le> 0"
  from best_box_loop_spec [where L = L and bs = boxes and ba = 0 and bb = None] show "find_best_box L boxes = None"
  proof
    assume "(\<forall>b\<in>set boxes. area L b \<le> 0) \<and> best_box_loop L boxes (None, 0) = (None, 0)"
    then show ?thesis by (simp add: find_best_box_def)
  next
    assume "\<exists>i<length boxes.
       best_box_loop L boxes (None, 0) = (Some (xyxy (boxes ! i)), area L (boxes ! i)) \<and>
       0 < area L (boxes ! i) \<and>
       (\<forall>j<length boxes. area L (boxes ! j) \<le> area L (boxes ! i)) \<and>
       (\<forall>j<i. area L (boxes ! j) < area L (boxes ! i))"
    then obtain i where i: "i < length boxes" "0 < area L (boxes ! i)" by blast
    then have "boxes ! i \<in> set boxes" by simp
    with a i(2) show ?thesis by fastforce
  qed
qed

lemma find_best_box_Some:
  assumes "\<exists>b \<in> set boxes. 0 < area L b"
  shows "\<exists>i < length boxes. find_best_box L boxes = Some (xyxy (boxes ! i))
           \<and> (\<forall>j < length boxes. area L (boxes ! j) \<le> area L (boxes ! i))
           \<and> (\<forall>j < i. area L (boxes ! j) < area L (boxes ! i))"
proof -
  from assms have "\<not> (\<forall>b \<in> set boxes. area L b \<le> 0)" by fastforce
  with best_box_loop_spec [where L = L and bs = boxes and ba = 0 and bb = None]
  obtain i where "i < length boxes"
    "best_box_loop L boxes (None, 0) = (Some (xyxy (boxes ! i)), area L (boxes ! i))"
    "\<forall>j<length boxes. area L (boxes ! j) \<le> area L (boxes ! i)"
    "\<forall>j<i. area L (boxes ! j) < area L (boxes ! i)"
    by blast
  then show ?thesis by (auto simp: find_best_box_def)
qed

subsection \<open>Cropping\<close>

lemma getpixel_crop:
  assumes "crop img (l, t, r, b) = Inr out" "i < nat (r - l)" "j < nat (b - t)"
  shows "getpixel out (int i) (int j) = getpixel img (l + int i) (t + int j)"
  using assms
  by (auto simp: crop_def getpixel_def[of out] split: if_splits)

lemma py_int_numeral [simp]: "py_int (numeral n) = numeral n" "py_int 0 = 0" "py_int 1 = 1"
  by (simp_all add: py_int_def)

subsection \<open>\<open>detect_and_crop\<close>\<close>

lemma well_formed_area: "well_formed L b \<Longrightarrow> 0 < area L b"
  by (auto simp: well_formed_def split: prod.splits)

lemma find_best_box_well_formed:
  assumes "\<forall>b \<in> set boxes. well_formed L b"
  shows "find_best_box L boxes = None \<longleftrightarrow> boxes = []"
proof
  assume "find_best_box L boxes = None"
  then have le: "\<forall>b \<in> set boxes. area L b \<le> 0" by (simp add: find_best_box_None_iff)
  show "boxes = []"
  proof (cases boxes)
    case Nil
    then show ?thesis .
  next
    case (Cons b bs)
    then have "b \<in> set boxes" by simp
    with assms le well_formed_area [of L b] show ?thesis by fastforce
  qed
next
  assume "boxes = []"
  then show "find_best_box L boxes = None" by (simp add: find_best_box_def)
qed

lemma detect_and_crop_positive_area:
  assumes "yolo_predict L img c = Inr boxes" and "\<exists>b \<in> set boxes. 0 < area L b"
  shows "\<exists>i < length boxes.
           detect_and_crop L img c = crop img (padded_box img (xyxy (boxes ! i)))
         \<and> find_best_box L boxes = Some (xyxy (boxes ! i))
         \<and> (\<forall>j < length boxes. area L (boxes ! j) \<le> area L (boxes ! i))
         \<and> (\<forall>j < i. area L (boxes ! j) < area L (boxes ! i))"
proof -
  from find_best_box_Some [OF assms(2)] obtain i where i: "i < length boxes"
    "find_best_box L boxes = Some (xyxy (boxes ! i))"
    "\<forall>j < length boxes. area L (boxes ! j) \<le> area L (boxes ! i)"
    "\<forall>j < i. area L (boxes ! j) < area L (boxes ! i)" by blast
  from assms(2) have ne: "boxes \<noteq> []" by auto
  have "detect_and_crop L img c = crop img (padded_box img (xyxy (boxes ! i)))"
    using assms(1) i(2) ne by (simp add: detect_and_crop_def)
  with i show ?thesis by blast
qed

lemma detect_and_crop_well_formed:
  assumes "yolo_predict L img c = Inr boxes" and "boxes \<noteq> []"
    and "\<forall>b \<in> set boxes. well_formed L b"
  shows "\<exists>i < length boxes.
           detect_and_crop L img c = crop img (padded_box img (xyxy (boxes ! i)))
         \<and> find_best_box L boxes = Some (xyxy (boxes ! i))
         \<and> (\<forall>j < length boxes. area L (boxes ! j) \<le> area L (boxes ! i))
         \<and> (\<forall>j < i. area L (boxes ! j) < area L (boxes ! i))"
proof -
  from assms(2) obtain b where b: "b \<in> set boxes" by (cases boxes) auto
  with assms(3) well_formed_area [of L b] have "\<exists>b \<in> set boxes. 0 < area L b" by blast
  from detect_and_crop_positive_area [OF assms(1) this] show ?thesis .
qed



text \<open>
  Claim C4: when the detector reports no box, \<open>detect_and_crop\<close> returns the centre
  square: side \<open>min(w, h)\<close>, left offset \<open>(w - side) // 2\<close>, top offset
  \<open>(h - side) // 2\<close>, with the pixels of the image at those offsets.
\<close>

theorem detect_and_crop_no_boxes_center_square:
  assumes "yolo_predict L img c = Inr []"
  shows "let w = int (width img); h = int (height img); side = min w h;
             left = (w - side) div 2; top = (h - side) div 2
         in \<exists>out. detect_and_crop L img c = Inr out
              \<and> crop img (left, top, left + side, top + side) = Inr out
              \<and> mode out = mode img
              \<and> width out = min (width img) (height img)
              \<and> height out = min (width img) (height img)
              \<and> (\<forall>i < min (width img) (height img). \<forall>j < min (width img) (height img).
                    getpixel out (int i) (int j) = getpixel img (left + int i) (top + int j))"
proof -
  define side where "side = min (int (width img)) (int (height img))"
  define left where "left = (int (width img) - side) div 2"
  define top where "top = (int (height img) - side) div 2"
  have side: "0 \<le> side" "nat side = min (width img) (height img)"
    by (simp_all add: side_def)
  obtain out where out: "crop img (left, top, left + side, top + side) = Inr out"
    using side(1) by (simp add: crop_def)
  have dc: "detect_and_crop L img c = Inr out"
    using assms out by (simp add: detect_and_crop_def center_crop_def Let_def side_def left_def top_def)
  have sz: "mode out = mode img" "width out = min (width img) (height img)"
    "height out = min (width img) (height img)"
    using out side by (auto simp: crop_def split: if_splits)
  have px: "getpixel out (int i) (int j) = getpixel img (left + int i) (top + int j)"
    if "i < min (width img) (height img)" "j < min (width img) (height img)" for i j
    using getpixel_crop [OF out, of i j] that side(2) by simp
  show ?thesis
    unfolding Let_def side_def [symmetric] left_def [symmetric] top_def [symmetric]
    using dc out sz px by blast
qed

text \<open>Witness for C4: the centre square of a 4 by 2 image is its two middle columns.\<close>

theorem detect_and_crop_no_boxes_center_square_witness:
  "yolo_predict sample_libs img_4x2 0.25 = Inr []
   \<and> detect_and_crop sample_libs img_4x2 0.25
       = Inr \<lparr> mode = ''RGB'', width = 2, height = 2,
               pixels = [[(11, 21, 31), (12, 22, 32)], [(15, 25, 35), (16, 26, 36)]] \<rparr>"
proof -
  have p: "yolo_predict sample_libs img_4x2 0.25 = Inr []"
    by (simp add: sample_libs_def)
  have c: "crop img_4x2 (1, 0, 3, 2)
       = Inr \<lparr> mode = ''RGB'', width = 2, height = 2,
               pixels = [[(11, 21, 31), (12, 22, 32)], [(15, 25, 35), (16, 26, 36)]] \<rparr>"
    by (simp add: crop_def img_4x2_def getpixel_def upto.simps)
  from detect_and_crop_no_boxes_center_square [OF p] c have "detect_and_crop sample_libs img_4x2 0.25
       = Inr \<lparr> mode = ''RGB'', width = 2, height = 2,
               pixels = [[(11, 21, 31), (12, 22, 32)], [(15, 25, 35), (16, 26, 36)]] \<rparr>"
    by (auto simp: Let_def img_4x2_def)
  with p show ?thesis by simp
qed

text \<open>
  Claim C5: for every image of size \<open>w\<close> by \<open>h\<close> and every box, the padded crop
  rectangle satisfies \<open>0 \<le> x1\<close>, \<open>0 \<le> y1\<close>, \<open>x2 \<le> w\<close> and \<open>y2 \<le> h\<close>.
\<close>

theorem padded_box_within_image:
  "case padded_box img best_box of (x1, y1, x2, y2) \<Rightarrow>
     0 \<le> x1 \<and> 0 \<le> y1 \<and> x2 \<le> int (width img) \<and> y2 \<le> int (height img)"
  by (simp add: padded_box_def Let_def split: prod.splits)

text \<open>
  Witness for C5: a box reaching beyond a 4 by 2 image on every side is cut back to the
  image.
\<close>

theorem padded_box_within_image_witness:
  "padded_box img_4x2 (- 3, - 1, 47, 21) = (0, 0, 4, 2)"
proof -
  have p: "padded_box img_4x2 (- 3, - 1, 47, 21)
             = (max 0 (- 5), max 0 (- 2), min 4 49, min 2 22)"
    by (simp add: padded_box_def py_int_def Let_def img_4x2_def)
  from padded_box_within_image [of img_4x2 "(- 3, - 1, 47, 21)"] p
  show ?thesis by (simp add: img_4x2_def)
qed

text \<open>
  Claim C6: an exception of the detector call is the result of \<open>detect_and_crop\<close>,
  unchanged, so a result is returned only when the detector returned; the boxes being
  well formed, the loop leaves \<open>best_box\<close> at \<open>None\<close> exactly when no box was reported,
  so the centre crop, which itself never fails, answers zero detections and nothing
  else, and any other call is answered by the crop to a reported box.
\<close>

theorem detect_and_crop_failure_policy:
  assumes wf: "\<forall>boxes. yolo_predict L img c = Inr boxes \<longrightarrow> (\<forall>b \<in> set boxes. well_formed L b)"
  shows "(\<forall>e. yolo_predict L img c = Inl e \<longrightarrow> detect_and_crop L img c = Inl e)
   \<and> (\<forall>boxes. yolo_predict L img c = Inr boxes \<longrightarrow>
          (find_best_box L boxes = None \<longleftrightarrow> boxes = [])
        \<and> (boxes = [] \<longrightarrow> detect_and_crop L img c = center_crop img)
        \<and> (boxes \<noteq> [] \<longrightarrow>
              (\<exists>b \<in> set boxes. detect_and_crop L img c = crop img (padded_box img (xyxy b)))))
   \<and> (\<exists>out. center_crop img = Inr out)
   \<and> (\<forall>out. detect_and_crop L img c = Inr out \<longrightarrow> (\<exists>boxes. yolo_predict L img c = Inr boxes))"
proof (intro conjI allI impI)
  fix e assume "yolo_predict L img c = Inl e"
  then show "detect_and_crop L img c = Inl e" by (simp add: detect_and_crop_def)
next
  fix boxes assume p: "yolo_predict L img c = Inr boxes"
  with wf have w: "\<forall>b \<in> set boxes. well_formed L b" by blast
  show "find_best_box L boxes = None \<longleftrightarrow> boxes = []"
    by (rule find_best_box_well_formed [OF w])
  {
    assume "boxes = []"
    with p show "detect_and_crop L img c = center_crop img" by (simp add: detect_and_crop_def)
  }
  {
    assume "boxes \<noteq> []"
    from detect_and_crop_well_formed [OF p this w] obtain i where "i < length boxes"
      "detect_and_crop L img c = crop img (padded_box img (xyxy (boxes ! i)))" by blast
    then show "\<exists>b \<in> set boxes. detect_and_crop L img c = crop img (padded_box img (xyxy b))"
      using nth_mem by blast
  }
next
  show "\<exists>out. center_crop img = Inr out"
    by (simp add: center_crop_def crop_def Let_def)
next
  fix out assume "detect_and_crop L img c = Inr out"
  then show "\<exists>boxes. yolo_predict L img c = Inr boxes"
    by (cases "yolo_predict L img c") (simp_all add: detect_and_crop_def)
qed

text \<open>
  Witness for C6: a failing detector, whose error is the result; a detector reporting
  nothing, answered by the centre crop; a detector reporting three well-formed boxes,
  for which a box is chosen.
\<close>

theorem detect_and_crop_failure_policy_witness:
  "yolo_predict failing_libs img_4x2 0.25 = Inl (ExternalError ''detector failed'')
   \<and> detect_and_crop failing_libs img_4x2 0.25 = Inl (ExternalError ''detector failed'')
   \<and> yolo_predict sample_libs img_4x2 0.25 = Inr []
   \<and> detect_and_crop sample_libs img_4x2 0.25 = center_crop img_4x2
   \<and> yolo_predict three_box_libs img_4x2 0.25 = Inr [small_box, big_box, late_box]
   \<and> find_best_box three_box_libs [small_box, big_box, late_box] \<noteq> None"
proof -
  have f: "yolo_predict failing_libs img_4x2 0.25 = Inl (ExternalError ''detector failed'')"
    by (simp add: failing_libs_def sample_libs_def)
  have s: "yolo_predict sample_libs img_4x2 0.25 = Inr []"
    by (simp add: sample_libs_def)
  have t: "yolo_predict three_box_libs img_4x2 0.25 = Inr [small_box, big_box, late_box]"
    by (simp add: three_box_libs_def sample_libs_def)
  have wf_f: "\<forall>boxes. yolo_predict failing_libs img_4x2 0.25 = Inr boxes
                \<longrightarrow> (\<forall>b \<in> set boxes. well_formed failing_libs b)"
    by (simp add: failing_libs_def sample_libs_def)
  have wf_s: "\<forall>boxes. yolo_predict sample_libs img_4x2 0.25 = Inr boxes
                \<longrightarrow> (\<forall>b \<in> set boxes. well_formed sample_libs b)"
    by (simp add: sample_libs_def)
  have wf_t: "\<forall>boxes. yolo_predict three_box_libs img_4x2 0.25 = Inr boxes
                \<longrightarrow> (\<forall>b \<in> set boxes. well_formed three_box_libs b)"
    by (simp add: well_formed_def area_def small_box_def big_box_def late_box_def
        three_box_libs_def sample_libs_def)
  from detect_and_crop_failure_policy [OF wf_f] f
  have 1: "detect_and_crop failing_libs img_4x2 0.25 = Inl (ExternalError ''detector failed'')"
    by blast
  from detect_and_crop_failure_policy [OF wf_s] s
  have 2: "detect_and_crop sample_libs img_4x2 0.25 = center_crop img_4x2"
    by blast
  from detect_and_crop_failure_policy [OF wf_t] t
  have "find_best_box three_box_libs [small_box, big_box, late_box] = None
          \<longleftrightarrow> [small_box, big_box, late_box] = []"
    by blast
  then have 3: "find_best_box three_box_libs [small_box, big_box, late_box] \<noteq> None" by simp
  from f s t 1 2 3 show ?thesis by blast
qed

subsection \<open>\<open>process_image\<close> and \<open>normalize_color\<close>\<close>

text \<open>
  Claim C9: on an image in mode RGB, \<open>process_image\<close> with both flags off returns
  the image itself; nothing is resized.
\<close>

theorem process_image_identity:
  assumes "mode img = ''RGB''"
  shows "process_image L img False False = Inr img"
  using assms by (simp add: process_image_def)

text \<open>Witness for C9.\<close>

theorem process_image_identity_witness:
  "mode img_4x2 = ''RGB'' \<and> process_image sample_libs img_4x2 False False = Inr img_4x2"
proof -
  have m: "mode img_4x2 = ''RGB''" by (simp add: img_4x2_def)
  from process_image_identity [OF m] m show ?thesis by simp
qed

lemma equalize_l_eq:
  "equalize_l L lab = map (map (\<lambda>p. (cv_equalize_lut L (map (map fst) lab) (fst p), snd p))) lab"
proof -
  have row: "zip (map (f \<circ> fst) r) (zip (map (\<lambda>p. fst (snd p)) r) (map (\<lambda>p. snd (snd p)) r))
     = map (\<lambda>p. (f (fst p), snd p)) r" for r :: "pixel list" and f :: "8 word \<Rightarrow> 8 word"
    by (induction r) auto
  have "map (\<lambda>(r0, r1, r2). zip r0 (zip r1 r2))
          (zip (map (map f) (map (map fst) lab))
               (zip (map (map (\<lambda>p. fst (snd p))) lab) (map (map (\<lambda>p. snd (snd p))) lab)))
     = map (map (\<lambda>p. (f (fst p), snd p))) lab" for f :: "8 word \<Rightarrow> 8 word"
    by (induction lab) (simp_all add: row)
  then show ?thesis
    by (simp add: equalize_l_def cv_split_def cv_merge_def cv_equalizeHist_def)
qed

text \<open>
  Claim C8: on a non-empty image \<open>normalize_color\<close> returns an RGB image of the same
  width and height; between the two LAB arrays the first channel is replaced by its
  histogram equalisation and the channels a and b are unchanged.
\<close>

theorem normalize_color_frame:
  assumes "length (pixels img) = height img"
    and "\<forall>row \<in> set (pixels img). length row = width img"
    and "0 < width img" and "0 < height img"
  shows "(\<exists>out. normalize_color L img = Inr out
            \<and> out = from_lab L (equalize_l L (to_lab L img))
            \<and> mode out = ''RGB'' \<and> width out = width img \<and> height out = height img)
       \<and> cv_split (equalize_l L (to_lab L img))
           = (cv_equalizeHist L (fst (cv_split (to_lab L img))),
              fst (snd (cv_split (to_lab L img))),
              snd (snd (cv_split (to_lab L img))))"
proof
  obtain r rs where px: "pixels img = r # rs"
    using assms(1,4) by (cases "pixels img") auto
  with assms(2) have r: "length r = width img" by simp
  with assms(3) have "r \<noteq> []" by auto
  with px have ne: "\<not> array_empty (pixels img)" by (simp add: array_empty_def)
  have "width (from_lab L (equalize_l L (to_lab L img))) = width img"
    using px r by (simp add: from_lab_def fromarray_def equalize_l_eq to_lab_def Let_def)
  moreover have "height (from_lab L (equalize_l L (to_lab L img))) = height img"
    using assms(1) by (simp add: from_lab_def fromarray_def equalize_l_eq to_lab_def Let_def)
  moreover have "mode (from_lab L (equalize_l L (to_lab L img))) = ''RGB''"
    by (simp add: from_lab_def fromarray_def Let_def)
  ultimately show "\<exists>out. normalize_color L img = Inr out
            \<and> out = from_lab L (equalize_l L (to_lab L img))
            \<and> mode out = ''RGB'' \<and> width out = width img \<and> height out = height img"
    using ne by (simp add: normalize_color_def)
next
  show "cv_split (equalize_l L (to_lab L img))
           = (cv_equalizeHist L (fst (cv_split (to_lab L img))),
              fst (snd (cv_split (to_lab L img))),
              snd (snd (cv_split (to_lab L img))))"
    by (simp add: equalize_l_eq cv_split_def cv_equalizeHist_def comp_def)
qed

text \<open>Witness for C8: a 2 by 1 image.\<close>

theorem normalize_color_frame_witness:
  "length (pixels img_2x1) = height img_2x1
   \<and> list_all (\<lambda>row. length row = width img_2x1) (pixels img_2x1)
   \<and> 0 < width img_2x1 \<and> 0 < height img_2x1
   \<and> normalize_color sample_libs img_2x1
       = Inr \<lparr> mode = ''RGB'', width = 2, height = 1, pixels = [[(10, 20, 225), (40, 50, 195)]] \<rparr>"
proof -
  have h: "length (pixels img_2x1) = height img_2x1"
    "\<forall>row \<in> set (pixels img_2x1). length row = width img_2x1"
    "0 < width img_2x1" "0 < height img_2x1"
    by (simp_all add: img_2x1_def)
  have v: "from_lab sample_libs (equalize_l sample_libs (to_lab sample_libs img_2x1))
       = \<lparr> mode = ''RGB'', width = 2, height = 1, pixels = [[(10, 20, 225), (40, 50, 195)]] \<rparr>"
    by (simp add: from_lab_def equalize_l_def to_lab_def cv_split_def cv_merge_def
        cv_equalizeHist_def fromarray_def swap_rb_def sample_libs_def img_2x1_def Let_def)
  have la: "list_all (\<lambda>row. length row = width img_2x1) (pixels img_2x1)"
    by (simp add: img_2x1_def)
  from normalize_color_frame [OF h, of sample_libs] v have
    "normalize_color sample_libs img_2x1
       = Inr \<lparr> mode = ''RGB'', width = 2, height = 1, pixels = [[(10, 20, 225), (40, 50, 195)]] \<rparr>"
    by auto
  with h(1,3,4) la show ?thesis by blast
qed

subsection \<open>\<open>generate_embedding\<close>\<close>

lemma sqrt_25: "sqrt 25 = 5"
  by (rule real_sqrt_unique) simp_all

lemma euclidean_norm_nonneg: "0 \<le> euclidean_norm xs"
  unfolding euclidean_norm_def by (rule real_sqrt_ge_zero, rule sum_list_nonneg) auto

lemma sum_squares_le:
  fixes f :: "real \<Rightarrow> real"
  assumes "\<forall>x \<in> set xs. \<bar>f x\<bar> \<le> c * \<bar>x\<bar>"
  shows "sum_list (map (\<lambda>x. f x * f x) xs) \<le> c * c * sum_list (map (\<lambda>x. x * x) xs)"
  using assms
proof (induction xs)
  case Nil
  show ?case by simp
next
  case (Cons x xs)
  from Cons.prems have a: "\<bar>f x\<bar> \<le> c * \<bar>x\<bar>" by simp
  have "f x * f x = \<bar>f x\<bar> * \<bar>f x\<bar>" by simp
  also have "\<dots> \<le> (c * \<bar>x\<bar>) * (c * \<bar>x\<bar>)"
    by (rule mult_mono [OF a a]) (use a in \<open>auto intro: order_trans [OF abs_ge_zero]\<close>)
  also have "\<dots> = c * c * (x * x)" by (simp add: algebra_simps abs_mult_self_eq)
  finally have "f x * f x \<le> c * c * (x * x)" .
  moreover from Cons have "sum_list (map (\<lambda>x. f x * f x) xs)
      \<le> c * c * sum_list (map (\<lambda>x. x * x) xs)" by simp
  ultimately show ?case by (simp add: algebra_simps)
qed

lemma sum_squares_ge:
  fixes f :: "real \<Rightarrow> real"
  assumes "0 \<le> c" and "\<forall>x \<in> set xs. c * \<bar>x\<bar> \<le> \<bar>f x\<bar>"
  shows "c * c * sum_list (map (\<lambda>x. x * x) xs) \<le> sum_list (map (\<lambda>x. f x * f x) xs)"
  using assms(2)
proof (induction xs)
  case Nil
  show ?case by simp
next
  case (Cons x xs)
  from Cons.prems have a: "c * \<bar>x\<bar> \<le> \<bar>f x\<bar>" by simp
  have nn: "0 \<le> c * \<bar>x\<bar>" using assms(1) by simp
  have "c * c * (x * x) = (c * \<bar>x\<bar>) * (c * \<bar>x\<bar>)" by (simp add: algebra_simps abs_mult_self_eq)
  also have "\<dots> \<le> \<bar>f x\<bar> * \<bar>f x\<bar>"
    by (rule mult_mono [OF a a]) (use nn in auto)
  also have "\<dots> = f x * f x" by simp
  finally have "c * c * (x * x) \<le> f x * f x" .
  moreover from Cons have "c * c * sum_list (map (\<lambda>x. x * x) xs)
      \<le> sum_list (map (\<lambda>x. f x * f x) xs)" by simp
  ultimately show ?case by (simp add: algebra_simps)
qed

lemma euclidean_norm_map_le:
  fixes f :: "real \<Rightarrow> real"
  assumes "0 \<le> c" and "\<forall>x \<in> set xs. \<bar>f x\<bar> \<le> c * \<bar>x\<bar>"
  shows "euclidean_norm (map f xs) \<le> c * euclidean_norm xs"
proof -
  have "sqrt (sum_list (map (\<lambda>x. f x * f x) xs))
          \<le> sqrt (c * c * sum_list (map (\<lambda>x. x * x) xs))"
    by (rule real_sqrt_le_mono [OF sum_squares_le [OF assms(2)]])
  also have "\<dots> = c * sqrt (sum_list (map (\<lambda>x. x * x) xs))"
    using assms(1) by (simp add: real_sqrt_mult)
  finally show ?thesis by (simp add: euclidean_norm_def comp_def)
qed

lemma euclidean_norm_map_ge:
  fixes f :: "real \<Rightarrow> real"
  assumes "0 \<le> c" and "\<forall>x \<in> set xs. c * \<bar>x\<bar> \<le> \<bar>f x\<bar>"
  shows "c * euclidean_norm xs \<le> euclidean_norm (map f xs)"
proof -
  have "c * sqrt (sum_list (map (\<lambda>x. x * x) xs))
          = sqrt (c * c * sum_list (map (\<lambda>x. x * x) xs))"
    using assms(1) by (simp add: real_sqrt_mult)
  also have "\<dots> \<le> sqrt (sum_list (map (\<lambda>x. f x * f x) xs))"
    by (rule real_sqrt_le_mono [OF sum_squares_ge [OF assms]])
  finally show ?thesis by (simp add: euclidean_norm_def comp_def)
qed

text \<open>
  The rounding of the norm and of the quotients, each within a relative error \<open>u\<close>,
  moves the norm of the result away from 1 by at most \<open>2u / (1 - u)\<close>.
\<close>

lemma normalize_vector_accurate:
  assumes u: "0 \<le> u" "u < 1"
    and n: "np_linalg_norm L (flat raw) = Finite n"
    and nacc: "\<bar>n - euclidean_norm (flat raw)\<bar> \<le> u * euclidean_norm (flat raw)"
    and dacc: "\<forall>x \<in> set (flat raw). \<bar>np_divide L x n - x / n\<bar> \<le> u * \<bar>x / n\<bar>"
  shows "if euclidean_norm (flat raw) = 0 then normalize_vector L raw = raw
         else normalize_vector L raw = raw\<lparr> flat := map (\<lambda>x. np_divide L x n) (flat raw) \<rparr>
            \<and> \<bar>euclidean_norm (flat (normalize_vector L raw)) - 1\<bar> \<le> 2 * u / (1 - u)"
proof (cases "euclidean_norm (flat raw) = 0")
  case True
  with nacc have "n = 0" by simp
  with n True show ?thesis by (simp add: normalize_vector_def)
next
  case False
  define E where "E = euclidean_norm (flat raw)"
  have Epos: "0 < E" using False euclidean_norm_nonneg [of "flat raw"] by (simp add: E_def)
  from nacc have nlo: "(1 - u) * E \<le> n" and nhi: "n \<le> (1 + u) * E"
    by (simp_all add: E_def abs_le_iff algebra_simps)
  have npos: "0 < n"
  proof -
    have "0 < (1 - u) * E" using u(2) Epos by simp
    with nlo show ?thesis by linarith
  qed
  have nv: "normalize_vector L raw = raw\<lparr> flat := map (\<lambda>x. np_divide L x n) (flat raw) \<rparr>"
    using n npos by (simp add: normalize_vector_def)
  let ?f = "\<lambda>x. np_divide L x n"
  have up: "\<forall>x \<in> set (flat raw). \<bar>?f x\<bar> \<le> ((1 + u) / n) * \<bar>x\<bar>"
  proof
    fix x assume "x \<in> set (flat raw)"
    with dacc have d: "\<bar>?f x - x / n\<bar> \<le> u * \<bar>x / n\<bar>" by blast
    have "\<bar>?f x\<bar> \<le> \<bar>x / n\<bar> + \<bar>?f x - x / n\<bar>" by linarith
    also have "\<dots> \<le> \<bar>x / n\<bar> + u * \<bar>x / n\<bar>" using d by linarith
    also have "\<dots> = (1 + u) * \<bar>x / n\<bar>" by (simp only: distrib_right mult_1)
    also have "\<dots> = ((1 + u) / n) * \<bar>x\<bar>" using npos by (simp add: abs_divide)
    finally show "\<bar>?f x\<bar> \<le> ((1 + u) / n) * \<bar>x\<bar>" .
  qed
  have lo: "\<forall>x \<in> set (flat raw). ((1 - u) / n) * \<bar>x\<bar> \<le> \<bar>?f x\<bar>"
  proof
    fix x assume "x \<in> set (flat raw)"
    with dacc have d: "\<bar>?f x - x / n\<bar> \<le> u * \<bar>x / n\<bar>" by blast
    have "((1 - u) / n) * \<bar>x\<bar> = (1 - u) * \<bar>x / n\<bar>" using npos by (simp add: abs_divide)
    also have "\<dots> = \<bar>x / n\<bar> - u * \<bar>x / n\<bar>" by (simp only: left_diff_distrib mult_1)
    also have "\<dots> \<le> \<bar>x / n\<bar> - \<bar>?f x - x / n\<bar>" using d by linarith
    also have "\<dots> \<le> \<bar>?f x\<bar>" by linarith
    finally show "((1 - u) / n) * \<bar>x\<bar> \<le> \<bar>?f x\<bar>" .
  qed
  define V where "V = euclidean_norm (map ?f (flat raw))"
  have c1: "0 \<le> (1 + u) / n" and c2: "0 \<le> (1 - u) / n" using u npos by simp_all
  have Vhi: "V \<le> ((1 + u) / n) * E"
    unfolding V_def E_def by (rule euclidean_norm_map_le [OF c1 up])
  have Vlo: "((1 - u) / n) * E \<le> V"
    unfolding V_def E_def by (rule euclidean_norm_map_ge [OF c2 lo])
  have um: "0 < 1 - u" and up1: "0 < 1 + u" using u by simp_all
  have En_hi: "E / n \<le> 1 / (1 - u)"
    using nlo npos um by (simp add: field_simps)
  have En_lo: "1 / (1 + u) \<le> E / n"
    using nhi npos up1 by (simp add: field_simps)
  have "V \<le> (1 + u) * (E / n)" using Vhi by simp
  also have "\<dots> \<le> (1 + u) * (1 / (1 - u))"
    by (rule mult_left_mono [OF En_hi]) (use up1 in simp)
  finally have Vhi': "V \<le> (1 + u) / (1 - u)" by simp
  have "(1 - u) * (1 / (1 + u)) \<le> (1 - u) * (E / n)"
    by (rule mult_left_mono [OF En_lo]) (use um in simp)
  also have "\<dots> \<le> V" using Vlo by simp
  finally have Vlo': "(1 - u) / (1 + u) \<le> V" by simp
  have b1: "(1 + u) / (1 - u) - 1 = 2 * u / (1 - u)" using um by (simp add: field_simps)
  have b2: "1 - (1 - u) / (1 + u) = 2 * u / (1 + u)" using up1 by (simp add: field_simps)
  have b3: "2 * u / (1 + u) \<le> 2 * u / (1 - u)"
    using u um by (intro divide_left_mono) (simp_all add: mult_pos_pos)
  have "\<bar>V - 1\<bar> \<le> 2 * u / (1 - u)"
    using Vhi' Vlo' b1 b2 b3 by (simp add: abs_le_iff)
  with nv False show ?thesis by (simp add: V_def)
qed

text \<open>
  When the computed norm overflows to \<open>inf\<close>, or underflows to zero, the result is
  not of norm 1: it is the zero vector, or the raw vector. The accuracy of the computed
  norm is therefore a hypothesis of the statement about unit norm.
\<close>

lemma normalize_vector_overflow:
  "np_linalg_norm L (flat vec) = PosInf
     \<Longrightarrow> normalize_vector L vec = vec\<lparr> flat := map (\<lambda>x. 0) (flat vec) \<rparr>"
  by (simp add: normalize_vector_def)

lemma normalize_vector_underflow:
  "np_linalg_norm L (flat vec) = Finite 0 \<Longrightarrow> normalize_vector L vec = vec"
  by (simp add: normalize_vector_def)

text \<open>
  Claim C2: the vector \<open>generate_embedding\<close> returns is the raw feature vector
  unchanged when its Euclidean norm is zero, and otherwise the raw vector divided by the
  computed norm, of Euclidean norm 1 within \<open>2u / (1 - u)\<close>, where \<open>u\<close> bounds the
  relative rounding error of the computed norm and of each quotient (so the norm
  neither overflows nor underflows).
\<close>

theorem generate_embedding_unit_norm:
  assumes g: "generate_embedding L img = Inr v"
    and u: "0 \<le> u" "u < 1"
    and acc: "\<forall>raw. extract_features L (preprocess_image L img) = Inr raw \<longrightarrow>
               (\<exists>n. np_linalg_norm L (flat raw) = Finite n
                  \<and> \<bar>n - euclidean_norm (flat raw)\<bar> \<le> u * euclidean_norm (flat raw)
                  \<and> (\<forall>x \<in> set (flat raw). \<bar>np_divide L x n - x / n\<bar> \<le> u * \<bar>x / n\<bar>))"
  shows "\<exists>raw n. extract_features L (preprocess_image L img) = Inr raw
           \<and> np_linalg_norm L (flat raw) = Finite n
           \<and> (if euclidean_norm (flat raw) = 0 then v = raw
               else v = raw\<lparr> flat := map (\<lambda>x. np_divide L x n) (flat raw) \<rparr>
                  \<and> \<bar>euclidean_norm (flat v) - 1\<bar> \<le> 2 * u / (1 - u))"
proof -
  from g obtain raw where raw: "extract_features L (preprocess_image L img) = Inr raw"
    "v = normalize_vector L raw"
    by (auto simp: generate_embedding_def Let_def split: sum.splits)
  from acc raw(1) obtain n where n: "np_linalg_norm L (flat raw) = Finite n"
    "\<bar>n - euclidean_norm (flat raw)\<bar> \<le> u * euclidean_norm (flat raw)"
    "\<forall>x \<in> set (flat raw). \<bar>np_divide L x n - x / n\<bar> \<le> u * \<bar>x / n\<bar>"
    by blast
  have "if euclidean_norm (flat raw) = 0 then v = raw
        else v = raw\<lparr> flat := map (\<lambda>x. np_divide L x n) (flat raw) \<rparr>
           \<and> \<bar>euclidean_norm (flat v) - 1\<bar> \<le> 2 * u / (1 - u)"
    unfolding raw(2) by (rule normalize_vector_accurate [OF u n])
  with raw(1) n(1) show ?thesis by blast
qed

text \<open>
  Witness for C2: the raw features \<open>[3, 4]\<close>, a computed norm of \<open>85/16\<close> in place of
  5 and quotients rounded to eighths, all within \<open>u = 1/8\<close>; the result \<open>[5/8, 3/4]\<close>
  has norm 1 within \<open>2/7\<close>.
\<close>

theorem generate_embedding_unit_norm_witness:
  "generate_embedding coarse_libs img_2x1 = Inr \<lparr> shape = [2], flat = [5 / 8, 3 / 4] \<rparr>
   \<and> \<bar>euclidean_norm [5 / 8, 3 / 4] - 1\<bar> \<le> 2 / 7"
proof -
  have e: "extract_features coarse_libs t = Inr \<lparr> shape = [2], flat = [3, 4] \<rparr>" for t
    by (simp add: extract_features_def coarse_libs_def sample_libs_def squeeze_def)
  have E: "euclidean_norm [3, 4] = 5"
    by (simp add: euclidean_norm_def sqrt_25)
  have nrm: "np_linalg_norm coarse_libs [3, 4] = Finite (85 / 16)"
    by (simp add: coarse_libs_def sample_libs_def E)
  have d3: "np_divide coarse_libs 3 (85 / 16) = 5 / 8"
    and d4: "np_divide coarse_libs 4 (85 / 16) = 3 / 4"
    by (simp_all add: coarse_libs_def sample_libs_def)
  have g: "generate_embedding coarse_libs img_2x1
             = Inr \<lparr> shape = [2], flat = [5 / 8, 3 / 4] \<rparr>"
    by (simp add: generate_embedding_def Let_def e normalize_vector_def nrm d3 d4)
  have u: "(0::real) \<le> 1 / 8" "(1 / 8 :: real) < 1" by simp_all
  have acc: "\<forall>raw. extract_features coarse_libs (preprocess_image coarse_libs img_2x1) = Inr raw \<longrightarrow>
               (\<exists>n. np_linalg_norm coarse_libs (flat raw) = Finite n
                  \<and> \<bar>n - euclidean_norm (flat raw)\<bar> \<le> 1 / 8 * euclidean_norm (flat raw)
                  \<and> (\<forall>x \<in> set (flat raw). \<bar>np_divide coarse_libs x n - x / n\<bar> \<le> 1 / 8 * \<bar>x / n\<bar>))"
  proof (intro allI impI)
    fix raw
    assume "extract_features coarse_libs (preprocess_image coarse_libs img_2x1) = Inr raw"
    then have r: "raw = \<lparr> shape = [2], flat = [3, 4] \<rparr>" by (simp add: e)
    show "\<exists>n. np_linalg_norm coarse_libs (flat raw) = Finite n
                  \<and> \<bar>n - euclidean_norm (flat raw)\<bar> \<le> 1 / 8 * euclidean_norm (flat raw)
                  \<and> (\<forall>x \<in> set (flat raw). \<bar>np_divide coarse_libs x n - x / n\<bar> \<le> 1 / 8 * \<bar>x / n\<bar>)"
      unfolding r by (rule exI [of _ "85 / 16"]) (simp add: nrm E d3 d4)
  qed
  from generate_embedding_unit_norm [OF g u acc] e E
  have "\<bar>euclidean_norm [5 / 8, 3 / 4] - 1\<bar> \<le> 2 * (1 / 8) / (1 - 1 / 8)"
    by auto
  with g show ?thesis by simp
qed

subsection \<open>The flags at index time and at query time\<close>

lemma upt_0_2: "[0..<2::nat] = [0, 1]"
  by (simp add: numeral_2_eq_2)

lemma index_image_embed_eq_search: "index_image_embed L pil = search_image_embed L pil"
  by (simp add: index_image_embed_def search_image_embed_def)

lemma proc_tt: "process_image probe_libs img_4x2 True True
       = Inr \<lparr> mode = ''RGB'', width = 2, height = 2,
               pixels = [[(11, 21, 224), (12, 22, 223)], [(15, 25, 220), (16, 26, 219)]] \<rparr>"
  by (simp add: process_image_def probe_libs_def sample_libs_def detect_and_crop_def
      center_crop_def crop_def img_4x2_def Let_def getpixel_def upto.simps
      normalize_color_def array_empty_def from_lab_def equalize_l_def to_lab_def cv_split_def
      cv_merge_def cv_equalizeHist_def fromarray_def swap_rb_def)

lemma proc_ft: "process_image probe_libs img_4x2 False True
       = Inr \<lparr> mode = ''RGB'', width = 4, height = 2,
               pixels = [[(10, 20, 225), (11, 21, 224), (12, 22, 223), (13, 23, 222)],
                         [(14, 24, 221), (15, 25, 220), (16, 26, 219), (17, 27, 218)]] \<rparr>"
  by (simp add: process_image_def probe_libs_def sample_libs_def
      img_4x2_def Let_def
      normalize_color_def array_empty_def from_lab_def equalize_l_def to_lab_def cv_split_def
      cv_merge_def cv_equalizeHist_def fromarray_def swap_rb_def)

lemma gen_tt: "generate_embedding probe_libs \<lparr> mode = ''RGB'', width = 2, height = 2,
               pixels = [[(11, 21, 224), (12, 22, 223)], [(15, 25, 220), (16, 26, 219)]] \<rparr>
   = Inr \<lparr> shape = [2], flat = [0, 1] \<rparr>"
  by (simp add: generate_embedding_def preprocess_image_def extract_features_def squeeze_def
      normalize_vector_def euclidean_norm_def probe_libs_def sample_libs_def Let_def
      channel_def imagenet_mean_def imagenet_std_def)

lemma gen_ft: "generate_embedding probe_libs \<lparr> mode = ''RGB'', width = 4, height = 2,
               pixels = [[(10, 20, 225), (11, 21, 224), (12, 22, 223), (13, 23, 222)],
                         [(14, 24, 221), (15, 25, 220), (16, 26, 219), (17, 27, 218)]] \<rparr>
   = Inr \<lparr> shape = [2], flat = [1, 0] \<rparr>"
  by (simp add: generate_embedding_def preprocess_image_def extract_features_def squeeze_def
      normalize_vector_def euclidean_norm_def probe_libs_def sample_libs_def Let_def
      channel_def imagenet_mean_def imagenet_std_def getpixel_def upt_0_2)

text \<open>
  Claim C1 on the code: the two endpoints of app.py pass the same flags (the lemma
  above), but the bulk indexer of images\_embed.py, which fills the same collection,
  passes \<open>apply_detection=True\<close>. On a 4 by 2 image on which the detector reports no
  box, it embeds the centre square where \<open>/index\<close> and \<open>/search\<close> embed the whole
  image, and with a model that tells the two apart the vectors differ.
\<close>

theorem index_folder_embedding_differs_from_search:
  "index_folder_embed probe_libs img_4x2 = Inr \<lparr> shape = [2], flat = [0, 1] \<rparr>
   \<and> search_image_embed probe_libs img_4x2 = Inr \<lparr> shape = [2], flat = [1, 0] \<rparr>
   \<and> index_image_embed probe_libs img_4x2 = Inr \<lparr> shape = [2], flat = [1, 0] \<rparr>"
  by (simp add: index_folder_embed_def search_image_embed_def index_image_embed_def
      proc_tt proc_ft gen_tt gen_ft)

subsection \<open>The dimension of the embeddings, the ids of \<open>/index\<close>\<close>






lemma index_image_success:
  assumes "index_image L cfg file title artist year category w = (Inr r, w')"
  shows "\<exists>name pil vec coll.
           filename file = Some name
         \<and> index_image_embed L pil = Inr vec
         \<and> indexes w (index_name cfg) = Some coll
         \<and> resp_id r = basename (lstrip_slash (''/'' @ replace_backslash
                          (path_join MUSEUM_DIR (uuid4_hex L (uuid_calls w) @ ''_'' @ basename name))))
         \<and> uuid_calls w' = Suc (uuid_calls w)
         \<and> indexes w' = (indexes w)(index_name cfg \<mapsto>
               coll\<lparr> items := (items coll)(resp_id r \<mapsto> (vec, resp_metadata r)) \<rparr>)"
  using assms
  by (auto simp: index_image_def save_upload_file_def upsert_def Let_def
      split: if_splits option.splits sum.splits prod.splits) blast

lemma uuid_hex_chars:
  assumes "is_uuid_hex u"
  shows "u \<noteq> []" and "CHR ''/'' \<notin> set u" and "CHR 0x5C \<notin> set u"
proof -
  from assms have len: "length u = 32"
    and all: "\<forall>c \<in> set u. c \<in> set ''0123456789abcdef''"
    by (simp_all add: is_uuid_hex_def list_all_iff)
  from len show "u \<noteq> []" by auto
  have "CHR ''/'' \<notin> set ''0123456789abcdef''" by simp
  with all show "CHR ''/'' \<notin> set u" by blast
  have "CHR 0x5C \<notin> set ''0123456789abcdef''" by simp
  with all show "CHR 0x5C \<notin> set u" by blast
qed

lemma basename_no_slash: "CHR ''/'' \<notin> set (basename p)"
proof
  assume "CHR ''/'' \<in> set (basename p)"
  then have "CHR ''/'' \<in> set (takeWhile (\<lambda>c. c \<noteq> CHR ''/'') (rev p))"
    by (simp add: basename_def)
  then show False by (auto dest: set_takeWhileD)
qed

lemma basename_subset: "set (basename p) \<subseteq> set p"
  by (auto simp: basename_def dest: set_takeWhileD)

lemma basename_dir:
  assumes "CHR ''/'' \<notin> set s"
  shows "basename (d @ ''/'' @ s) = s"
proof -
  from assms have "takeWhile (\<lambda>c. c \<noteq> CHR ''/'') (rev s) = rev s"
    by (auto simp: takeWhile_eq_all_conv)
  then have "takeWhile (\<lambda>c. c \<noteq> CHR ''/'') (rev s @ CHR ''/'' # rev d) = rev s"
    by (simp add: takeWhile_tail)
  then show ?thesis by (simp add: basename_def)
qed

lemma replace_backslash_id:
  assumes "CHR 0x5C \<notin> set s"
  shows "replace_backslash s = s"
  unfolding replace_backslash_def using assms by (induction s) auto

lemma stored_name:
  assumes u: "is_uuid_hex u" and name: "CHR 0x5C \<notin> set name"
  shows "basename (lstrip_slash (''/'' @ replace_backslash
           (path_join MUSEUM_DIR (u @ ''_'' @ basename name))))
         = u @ ''_'' @ basename name"
proof -
  let ?f = "u @ ''_'' @ basename name"
  note uc = uuid_hex_chars [OF u]
  from uc(1) obtain c cs where ucs: "u = c # cs" by (cases u) auto
  with uc(2) have c: "c \<noteq> CHR ''/''" by auto
  have pj: "path_join MUSEUM_DIR ?f = ''images/museum/'' @ ?f"
    using c by (simp add: path_join_def MUSEUM_DIR_def IMAGES_DIR_def ucs)
  have nb: "CHR 0x5C \<notin> set (''images/museum/'' @ ?f)"
    using uc(3) name basename_subset [of name] by auto
  have ns: "CHR ''/'' \<notin> set ?f"
    using uc(2) basename_no_slash [of name] by auto
  have "lstrip_slash (''/'' @ replace_backslash (path_join MUSEUM_DIR ?f))
          = ''images/museum/'' @ ?f"
    unfolding pj replace_backslash_id [OF nb] by (simp add: lstrip_slash_def)
  moreover have "basename (''images/museum/'' @ ?f) = ?f"
    using basename_dir [OF ns, of "''images/museum''"] by simp
  ultimately show ?thesis by simp
qed

lemma index_image_failure:
  assumes "index_image L cfg upl title artist year category w = (Inl e, w')"
  shows "indexes w' = indexes w \<and> uuid_calls w \<le> uuid_calls w'
         \<and> uuid_calls w' \<le> Suc (uuid_calls w)"
  using assms
  by (auto simp: index_image_def save_upload_file_def upsert_def Let_def
      split: if_splits option.splits sum.splits prod.splits)

lemma index_image_step:
  assumes s: "index_image L cfg upl title artist year category w = (Inr r, w')"
    and hex: "is_uuid_hex (uuid4_hex L (uuid_calls w))"
    and names: "\<forall>name. filename upl = Some name \<longrightarrow> CHR 0x5C \<notin> set name"
  shows "\<exists>name vec coll.
           filename upl = Some name
         \<and> resp_id r = uuid4_hex L (uuid_calls w) @ ''_'' @ basename name
         \<and> take 32 (resp_id r) = uuid4_hex L (uuid_calls w)
         \<and> uuid_calls w' = Suc (uuid_calls w)
         \<and> indexes w (index_name cfg) = Some coll
         \<and> indexes w' = (indexes w)(index_name cfg \<mapsto>
               coll\<lparr> items := (items coll)(resp_id r \<mapsto> (vec, resp_metadata r)) \<rparr>)"
proof -
  from index_image_success [OF s] obtain name vec coll where a:
    "filename upl = Some name"
    "indexes w (index_name cfg) = Some coll"
    "resp_id r = basename (lstrip_slash (''/'' @ replace_backslash
        (path_join MUSEUM_DIR (uuid4_hex L (uuid_calls w) @ ''_'' @ basename name))))"
    "uuid_calls w' = Suc (uuid_calls w)"
    "indexes w' = (indexes w)(index_name cfg \<mapsto>
        coll\<lparr> items := (items coll)(resp_id r \<mapsto> (vec, resp_metadata r)) \<rparr>)"
    by blast
  from names a(1) have nb: "CHR 0x5C \<notin> set name" by blast
  have id: "resp_id r = uuid4_hex L (uuid_calls w) @ ''_'' @ basename name"
    using a(3) stored_name [OF hex nb] by simp
  from hex have "length (uuid4_hex L (uuid_calls w)) = 32" by (simp add: is_uuid_hex_def)
  then have "take 32 (resp_id r) = uuid4_hex L (uuid_calls w)" by (simp add: id)
  with a id show ?thesis by blast
qed

text \<open>
  A run of \<open>/index\<close> calls. The UUIDs drawn during the run are taken to be 32
  hexadecimal digits, different from one another and from the first 32 characters of
  every id already stored; the file names hold no backslash. Then every successful call
  stores its item under an id that no earlier item has.
\<close>

lemma index_calls_fresh:
  assumes hex: "\<forall>k. is_uuid_hex (uuid4_hex L k)"
  shows "(\<forall>rq \<in> set rqs. \<forall>name. filename (req_file rq) = Some name \<longrightarrow> CHR 0x5C \<notin> set name)
     \<Longrightarrow> inj_on (uuid4_hex L) {uuid_calls w ..< uuid_calls w + length rqs}
     \<Longrightarrow> (\<forall>i \<in> dom (items coll0). \<forall>k \<in> {uuid_calls w ..< uuid_calls w + length rqs}.
            take 32 i \<noteq> uuid4_hex L k)
     \<Longrightarrow> indexes w (index_name cfg) = Some coll0
     \<Longrightarrow> index_calls L cfg rqs w = (rs, w')
     \<Longrightarrow> distinct (ok_ids rs)
       \<and> set (ok_ids rs) \<inter> dom (items coll0) = {}
       \<and> (\<forall>i \<in> set (ok_ids rs).
            \<exists>k \<in> {uuid_calls w ..< uuid_calls w + length rqs}. \<exists>rq \<in> set rqs. \<exists>name.
              filename (req_file rq) = Some name
            \<and> i = uuid4_hex L k @ ''_'' @ basename name)
       \<and> (\<exists>coll'. indexes w' (index_name cfg) = Some coll'
            \<and> dom (items coll') = dom (items coll0) \<union> set (ok_ids rs)
            \<and> (\<forall>i \<in> dom (items coll0). items coll' i = items coll0 i)
            \<and> dimension coll' = dimension coll0)"
proof (induction rqs arbitrary: w coll0 rs w')
  case Nil
  then show ?case by simp
next
  case (Cons rq rqs)
  let ?c = "uuid_calls w"
  let ?big = "{?c ..< ?c + length (rq # rqs)}"
  note names = Cons.prems(1) and inj = Cons.prems(2) and fresh = Cons.prems(3)
    and coll = Cons.prems(4) and run = Cons.prems(5)
  obtain r w1 where r: "index_image L cfg (req_file rq) (req_title rq) (req_artist rq)
      (req_year rq) (req_category rq) w = (r, w1)"
    by (cases "index_image L cfg (req_file rq) (req_title rq) (req_artist rq)
      (req_year rq) (req_category rq) w") blast
  obtain rs1 w2 where run1: "index_calls L cfg rqs w1 = (rs1, w2)"
    by (cases "index_calls L cfg rqs w1") blast
  from run r run1 have rs: "rs = r # rs1" and w': "w' = w2" by simp_all
  from names have names1:
    "\<forall>rq \<in> set rqs. \<forall>name. filename (req_file rq) = Some name \<longrightarrow> CHR 0x5C \<notin> set name"
    by simp
  from names have names0: "\<forall>name. filename (req_file rq) = Some name \<longrightarrow> CHR 0x5C \<notin> set name"
    by simp
  show ?case
  proof (cases r)
    case (Inl e)
    from index_image_failure [OF r [unfolded Inl]]
    have ix: "indexes w1 = indexes w" and lo: "?c \<le> uuid_calls w1"
      and hi: "uuid_calls w1 \<le> Suc ?c" by simp_all
    let ?small = "{uuid_calls w1 ..< uuid_calls w1 + length rqs}"
    have sub: "?small \<subseteq> ?big" using lo hi by auto
    have inj1: "inj_on (uuid4_hex L) ?small" by (rule inj_on_subset [OF inj sub])
    have fresh1: "\<forall>i \<in> dom (items coll0). \<forall>k \<in> ?small. take 32 i \<noteq> uuid4_hex L k"
      using fresh sub by blast
    have coll1: "indexes w1 (index_name cfg) = Some coll0" using coll ix by simp
    note ih = Cons.IH [OF names1 inj1 fresh1 coll1 run1]
    have ids: "ok_ids rs = ok_ids rs1" by (simp add: rs Inl)
    have form: "\<forall>i \<in> set (ok_ids rs).
            \<exists>k \<in> ?big. \<exists>rq' \<in> set (rq # rqs). \<exists>name.
              filename (req_file rq') = Some name
            \<and> i = uuid4_hex L k @ ''_'' @ basename name"
    proof
      fix i assume "i \<in> set (ok_ids rs)"
      with ids ih obtain k rq' name where k: "k \<in> ?small" "rq' \<in> set rqs"
        "filename (req_file rq') = Some name" "i = uuid4_hex L k @ ''_'' @ basename name"
        by metis
      moreover from k(1) sub have "k \<in> ?big" by (rule subsetD [rotated])
      moreover from k(2) have "rq' \<in> set (rq # rqs)" by simp
      ultimately show "\<exists>k \<in> ?big. \<exists>rq' \<in> set (rq # rqs). \<exists>name.
              filename (req_file rq') = Some name
            \<and> i = uuid4_hex L k @ ''_'' @ basename name"
        by blast
    qed
    from ih ids form w' show ?thesis by simp
  next
    case (Inr resp)
    from index_image_step [OF r [unfolded Inr] hex [rule_format] names0]
    obtain name vec coll where st:
      "filename (req_file rq) = Some name"
      "resp_id resp = uuid4_hex L ?c @ ''_'' @ basename name"
      "take 32 (resp_id resp) = uuid4_hex L ?c"
      "uuid_calls w1 = Suc ?c"
      "indexes w (index_name cfg) = Some coll"
      "indexes w1 = (indexes w)(index_name cfg \<mapsto>
          coll\<lparr> items := (items coll)(resp_id resp \<mapsto> (vec, resp_metadata resp)) \<rparr>)"
      by blast
    from st(5) coll have ceq: "coll = coll0" by simp
    let ?i = "resp_id resp"
    let ?coll1 = "coll0\<lparr> items := (items coll0)(?i \<mapsto> (vec, resp_metadata resp)) \<rparr>"
    have coll1: "indexes w1 (index_name cfg) = Some ?coll1" by (simp add: st(6) ceq)
    have cin: "?c \<in> ?big" by simp
    have new: "?i \<notin> dom (items coll0)"
    proof
      assume "?i \<in> dom (items coll0)"
      with fresh cin have "take 32 ?i \<noteq> uuid4_hex L ?c" by blast
      with st(3) show False by simp
    qed
    let ?small = "{uuid_calls w1 ..< uuid_calls w1 + length rqs}"
    have sub: "?small \<subseteq> ?big" by (auto simp: st(4))
    have inj1: "inj_on (uuid4_hex L) ?small" by (rule inj_on_subset [OF inj sub])
    have fresh1: "\<forall>i \<in> dom (items ?coll1). \<forall>k \<in> ?small. take 32 i \<noteq> uuid4_hex L k"
    proof (intro ballI)
      fix i k assume i: "i \<in> dom (items ?coll1)" and k: "k \<in> ?small"
      from k sub have kb: "k \<in> ?big" by blast
      show "take 32 i \<noteq> uuid4_hex L k"
      proof (cases "i = ?i")
        case True
        have "uuid4_hex L ?c \<noteq> uuid4_hex L k"
        proof
          assume "uuid4_hex L ?c = uuid4_hex L k"
          with inj cin kb have "?c = k" by (auto dest: inj_onD)
          with k show False by (simp add: st(4))
        qed
        with True st(3) show ?thesis by simp
      next
        case False
        with i have "i \<in> dom (items coll0)" by auto
        with fresh kb show ?thesis by blast
      qed
    qed
    note ih = Cons.IH [OF names1 inj1 fresh1 coll1 run1]
    have ids: "ok_ids rs = ?i # ok_ids rs1" by (simp add: rs Inr)
    from ih have dis1: "distinct (ok_ids rs1)"
      and disj1: "set (ok_ids rs1) \<inter> dom (items ?coll1) = {}" by blast+
    from disj1 have notin: "?i \<notin> set (ok_ids rs1)" by auto
    from disj1 have disj0: "set (ok_ids rs1) \<inter> dom (items coll0) = {}" by auto
    have d: "distinct (ok_ids rs)" using dis1 notin by (simp add: ids)
    have dj: "set (ok_ids rs) \<inter> dom (items coll0) = {}"
      using disj0 new by (simp add: ids)
    have form: "\<forall>i \<in> set (ok_ids rs).
            \<exists>k \<in> ?big. \<exists>rq' \<in> set (rq # rqs). \<exists>name.
              filename (req_file rq') = Some name
            \<and> i = uuid4_hex L k @ ''_'' @ basename name"
    proof
      fix i assume "i \<in> set (ok_ids rs)"
      then consider "i = ?i" | "i \<in> set (ok_ids rs1)" by (auto simp: ids)
      then show "\<exists>k \<in> ?big. \<exists>rq' \<in> set (rq # rqs). \<exists>name.
              filename (req_file rq') = Some name
            \<and> i = uuid4_hex L k @ ''_'' @ basename name"
      proof cases
        case 1
        have "rq \<in> set (rq # rqs)" by simp
        with 1 st(1,2) cin show ?thesis by blast
      next
        case 2
        with ih obtain k rq' name' where k: "k \<in> ?small" "rq' \<in> set rqs"
          "filename (req_file rq') = Some name'" "i = uuid4_hex L k @ ''_'' @ basename name'"
          by metis
        moreover from k(1) sub have "k \<in> ?big" by (rule subsetD [rotated])
        moreover from k(2) have "rq' \<in> set (rq # rqs)" by simp
        ultimately show ?thesis by blast
      qed
    qed
    from ih obtain coll' where c': "indexes w2 (index_name cfg) = Some coll'"
      "dom (items coll') = dom (items ?coll1) \<union> set (ok_ids rs1)"
      "\<forall>i \<in> dom (items ?coll1). items coll' i = items ?coll1 i"
      "dimension coll' = dimension ?coll1" by blast
    have dm: "dom (items coll') = dom (items coll0) \<union> set (ok_ids rs)"
      using c'(2) by (auto simp: ids)
    have keep: "\<forall>i \<in> dom (items coll0). items coll' i = items coll0 i"
    proof
      fix i assume i: "i \<in> dom (items coll0)"
      with new have ne: "i \<noteq> ?i" by auto
      from i have "i \<in> dom (items ?coll1)" by auto
      with c'(3) have "items coll' i = items ?coll1 i" by blast
      with ne show "items coll' i = items coll0 i" by simp
    qed
    have dimn: "dimension coll' = dimension coll0" using c'(4) by simp
    from d dj form c'(1) dm keep dimn w' show ?thesis by blast
  qed
qed

text \<open>
  Claim C10: a successful call of \<open>/index\<close> returns as id the UUID it drew, an
  underscore and the base name of the uploaded file, the name under which the file was
  stored; a request has no field for an id. Over any run of calls, the UUIDs drawn
  being 32 hexadecimal digits, different from one another and from the first 32
  characters of the ids already stored, and the file names holding no backslash: the
  ids of the successful calls are pairwise different and none was stored before, so
  every successful call adds one item and none replaces another; the items stored
  before the run are unchanged. Two calls with the same image and metadata are the run
  of a request and itself.
\<close>

theorem index_image_fresh_ids:
  assumes hex: "\<forall>k. is_uuid_hex (uuid4_hex L k)"
    and names: "\<forall>rq \<in> set rqs. \<forall>name. filename (req_file rq) = Some name
                  \<longrightarrow> CHR 0x5C \<notin> set name"
    and inj: "inj_on (uuid4_hex L) {uuid_calls w ..< uuid_calls w + length rqs}"
    and fresh: "\<forall>i \<in> dom (items coll0). \<forall>k \<in> {uuid_calls w ..< uuid_calls w + length rqs}.
                  take 32 i \<noteq> uuid4_hex L k"
    and coll: "indexes w (index_name cfg) = Some coll0"
    and run: "index_calls L cfg rqs w = (rs, w')"
  shows "distinct (ok_ids rs)
       \<and> set (ok_ids rs) \<inter> dom (items coll0) = {}
       \<and> (\<forall>i \<in> set (ok_ids rs).
            \<exists>k \<in> {uuid_calls w ..< uuid_calls w + length rqs}. \<exists>rq \<in> set rqs. \<exists>name.
              filename (req_file rq) = Some name
            \<and> i = uuid4_hex L k @ ''_'' @ basename name)
       \<and> (\<exists>coll'. indexes w' (index_name cfg) = Some coll'
            \<and> dom (items coll') = dom (items coll0) \<union> set (ok_ids rs)
            \<and> (\<forall>i \<in> dom (items coll0). items coll' i = items coll0 i)
            \<and> dimension coll' = dimension coll0)"
  by (rule index_calls_fresh [OF hex names inj fresh coll run])





lemma sample_embed:
  "index_image_embed sample_libs \<lparr> mode = ''RGB'', width = Suc 0, height = Suc 0, pixels = [[(10, 20, 30)]] \<rparr>
     = Inr \<lparr> shape = [2], flat = [3 / 5, 4 / 5] \<rparr>"
  by (simp add: index_image_embed_def process_image_def normalize_color_def array_empty_def
      generate_embedding_def extract_features_def squeeze_def normalize_vector_def
      euclidean_norm_def sqrt_25 sample_libs_def Let_def)

lemmas index_image_eval =
  index_image_def supported_content_type_def sample_upload_def
  save_upload_file_def started_world_def sample_cfg_def MUSEUM_DIR_def IMAGES_DIR_def
  path_join_def basename_def replace_backslash_def lstrip_slash_def image_open_rgb_def
  upsert_def Let_def sample_embed
  sample_libs_def [THEN arg_cong, of uuid4_hex] sample_libs_def [THEN arg_cong, of pil_open]
  sample_libs_def [THEN arg_cong, of pil_convert_rgb] uuid_of_def

lemma first_call_fst:
  "fst first_call =
     Inr \<lparr> resp_status = ''ok'', resp_id = ''0000000000000000000000000000000a_mona.jpg'',
             resp_metadata = [(''title'', ''Mona Lisa''), (''artist'', ''Leonardo''),
                (''year'', ''1503''), (''category'', ''Painting''),
                (''image_url'', ''/images/museum/0000000000000000000000000000000a_mona.jpg'')] \<rparr>"
  by (simp add: first_call_def index_image_eval)

lemma second_call_fst:
  "fst second_call =
     Inr \<lparr> resp_status = ''ok'', resp_id = ''0000000000000000000000000000000b_mona.jpg'',
             resp_metadata = [(''title'', ''Mona Lisa''), (''artist'', ''Leonardo''),
                (''year'', ''1503''), (''category'', ''Painting''),
                (''image_url'', ''/images/museum/0000000000000000000000000000000b_mona.jpg'')] \<rparr>"
  by (simp add: second_call_def first_call_def index_image_eval)

text \<open>
  Witness for C10: the same upload with the same metadata indexed twice after start-up;
  the two ids differ and the collection, empty before, holds exactly the two items.
\<close>

theorem index_image_fresh_ids_witness:
  "ok_ids (fst (index_calls sample_libs sample_cfg [sample_request, sample_request] started_world))
     = [''0000000000000000000000000000000a_mona.jpg'',
        ''0000000000000000000000000000000b_mona.jpg'']
   \<and> distinct (ok_ids (fst (index_calls sample_libs sample_cfg
        [sample_request, sample_request] started_world)))
   \<and> (\<exists>coll'. indexes (snd (index_calls sample_libs sample_cfg
          [sample_request, sample_request] started_world)) ''museum-images'' = Some coll'
        \<and> dom (items coll') = {''0000000000000000000000000000000a_mona.jpg'',
                               ''0000000000000000000000000000000b_mona.jpg''}
        \<and> dimension coll' = 2)"
proof -
  let ?rqs = "[sample_request, sample_request]"
  let ?coll0 = "\<lparr> dimension = 2, metric = ''cosine'', items = Map.empty \<rparr> :: collection"
  have run: "index_calls sample_libs sample_cfg ?rqs started_world
      = ([fst first_call, fst second_call], snd second_call)"
    by (simp add: first_call_def second_call_def sample_request_def split_beta)
  have ids: "ok_ids [fst first_call, fst second_call]
      = [''0000000000000000000000000000000a_mona.jpg'',
         ''0000000000000000000000000000000b_mona.jpg'']"
    by (simp add: first_call_fst second_call_fst)
  have hex: "\<forall>k. is_uuid_hex (uuid4_hex sample_libs k)"
    by (simp add: is_uuid_hex_def sample_libs_def uuid_of_def)
  have names: "\<forall>rq \<in> set ?rqs. \<forall>name. filename (req_file rq) = Some name
                  \<longrightarrow> CHR 0x5C \<notin> set name"
    by (simp add: sample_request_def sample_upload_def)
  have rng: "{uuid_calls started_world ..< uuid_calls started_world + length ?rqs} = {0, 1}"
    by (auto simp: started_world_def)
  have inj: "inj_on (uuid4_hex sample_libs)
      {uuid_calls started_world ..< uuid_calls started_world + length ?rqs}"
    unfolding rng by (simp add: sample_libs_def uuid_of_def)
  have fresh: "\<forall>i \<in> dom (items ?coll0).
      \<forall>k \<in> {uuid_calls started_world ..< uuid_calls started_world + length ?rqs}.
         take 32 i \<noteq> uuid4_hex sample_libs k"
    by simp
  have coll: "indexes started_world (index_name sample_cfg) = Some ?coll0"
    by (simp add: started_world_def sample_cfg_def)
  from index_image_fresh_ids [OF hex names inj fresh coll run]
  have d: "distinct (ok_ids [fst first_call, fst second_call])"
    and c: "\<exists>coll'. indexes (snd second_call) (index_name sample_cfg) = Some coll'
            \<and> dom (items coll') = dom (items ?coll0) \<union> set (ok_ids [fst first_call, fst second_call])
            \<and> dimension coll' = dimension ?coll0"
    by blast+
  have nm: "index_name sample_cfg = ''museum-images''" by (simp add: sample_cfg_def)
  from c have c': "\<exists>coll'. indexes (snd second_call) ''museum-images'' = Some coll'
        \<and> dom (items coll') = {''0000000000000000000000000000000a_mona.jpg'',
                               ''0000000000000000000000000000000b_mona.jpg''}
        \<and> dimension coll' = 2"
    unfolding ids nm by simp
  from d c' show ?thesis unfolding run fst_conv snd_conv ids by simp
qed



end
